theory Spec2Isabelle
  imports Complex_Main "HOL-Library.Word"
begin

unbundle bit_operations_syntax

section \<open>The arithmetic of a C++ double\<close>

text \<open>
  A \<^verbatim>\<open>double\<close> is an IEEE 754 binary64 number: a finite value, an infinity or a NaN.
  A finite value is kept as the real number it denotes (the two zeros are one value; they
  compare equal in C++). Every operation computes the exact real result and rounds it to
  the nearest double, ties to the even significand, which is the rounding mode a C++
  program runs in.
\<close>

datatype double = Finite real | PosInf | NegInf | NaN

text \<open>Rounding a real to the nearest integer, a tie to the even one.\<close>

definition rne :: "real \<Rightarrow> int" where
  "rne x =
     (let f = \<lfloor>x\<rfloor>
      in if x - of_int f < 1 / 2 then f
         else if 1 / 2 < x - of_int f then f + 1
         else if even f then f else f + 1)"

text \<open>
  The binary exponent of a nonzero real as a double sees it: that of its leading bit, and
  \<open>- 1022\<close> for everything smaller (the subnormal range). The doubles with this exponent
  are the multiples of \<open>double_quantum\<close>: a significand of 53 bits.
\<close>

definition double_exponent :: "real \<Rightarrow> int" where
  "double_exponent x = max \<lfloor>log 2 \<bar>x\<bar>\<rfloor> (- 1022)"

definition double_quantum :: "real \<Rightarrow> real" where
  "double_quantum x = 2 powi (double_exponent x - 52)"

definition round_nearest :: "real \<Rightarrow> real" where
  "round_nearest x =
     (if x = 0 then 0 else of_int (rne (x / double_quantum x)) * double_quantum x)"

text \<open>The result of an operation whose exact value is \<open>x\<close>; \<open>2 ^ 1024\<close> and beyond overflow.\<close>

definition round_double :: "real \<Rightarrow> double" where
  "round_double x =
     (let y = round_nearest x
      in if 2 ^ 1024 \<le> y then PosInf else if y \<le> - (2 ^ 1024) then NegInf else Finite y)"

text \<open>Subtraction \<^verbatim>\<open>a - b\<close> and multiplication \<^verbatim>\<open>a * b\<close> of doubles.\<close>

fun double_sub :: "double \<Rightarrow> double \<Rightarrow> double" where
  "double_sub (Finite x) (Finite y) = round_double (x - y)"
| "double_sub NaN b = NaN"
| "double_sub a NaN = NaN"
| "double_sub PosInf PosInf = NaN"
| "double_sub NegInf NegInf = NaN"
| "double_sub PosInf b = PosInf"
| "double_sub NegInf b = NegInf"
| "double_sub (Finite x) PosInf = NegInf"
| "double_sub (Finite x) NegInf = PosInf"

fun double_neg :: "double \<Rightarrow> double" where
  "double_neg (Finite x) = Finite (- x)"
| "double_neg PosInf = NegInf"
| "double_neg NegInf = PosInf"
| "double_neg NaN = NaN"

fun double_mul :: "double \<Rightarrow> double \<Rightarrow> double" where
  "double_mul (Finite x) (Finite y) = round_double (x * y)"
| "double_mul NaN b = NaN"
| "double_mul a NaN = NaN"
| "double_mul (Finite x) b = (if x = 0 then NaN else if 0 < x then b else double_neg b)"
| "double_mul a (Finite y) = (if y = 0 then NaN else if 0 < y then a else double_neg a)"
| "double_mul PosInf b = b"
| "double_mul NegInf b = double_neg b"

text \<open>
  Division \<^verbatim>\<open>a / b\<close> of doubles. A zero divisor, for which the hardware delivers an
  infinity or a NaN, is kept apart from every other outcome as \<open>DivisionByZero\<close>, so that
  reaching it is visible in the result of the sampler.
\<close>

datatype fault = DivisionByZero

fun double_div :: "double \<Rightarrow> double \<Rightarrow> fault + double" where
  "double_div a (Finite y) =
     (if y = 0 then Inl DivisionByZero
      else case a of
             Finite x \<Rightarrow> Inr (round_double (x / y))
           | PosInf \<Rightarrow> Inr (if 0 < y then PosInf else NegInf)
           | NegInf \<Rightarrow> Inr (if 0 < y then NegInf else PosInf)
           | NaN \<Rightarrow> Inr NaN)"
| "double_div NaN b = Inr NaN"
| "double_div a NaN = Inr NaN"
| "double_div (Finite x) b = Inr (Finite 0)"
| "double_div a b = Inr NaN"

text \<open>
  The conversions \<^verbatim>\<open>(double)x\<close> of a \<^verbatim>\<open>ULONGLONG\<close> and \<^verbatim>\<open>static_cast<double>(x)\<close> of a
  \<^verbatim>\<open>DWORD\<close>: the count, rounded to the nearest double.
\<close>

definition to_double :: "64 word \<Rightarrow> double" where
  "to_double x = round_double (real (unat x))"

definition dword_to_double :: "32 word \<Rightarrow> double" where
  "dword_to_double x = round_double (real (unat x))"

section \<open>SysPulse: the utilization samplers (monitor.hpp, monitor.cpp)\<close>

subsection \<open>Data model\<close>

text \<open>
  \<^verbatim>\<open>struct Metric\<close> of monitor.hpp. The field \<^verbatim>\<open>value\<close> is named \<open>mvalue\<close> because
  \<open>value\<close> is reserved. A \<^verbatim>\<open>std::string\<close> is the list of its characters, which may
  contain the character 0. \<^verbatim>\<open>long long timestamp\<close> is a 64-bit word.
\<close>

record Metric =
  component :: string
  metric :: string
  mvalue :: double
  unit :: string
  timestamp :: "64 word"

text \<open>
  The Win32 \<^verbatim>\<open>FILETIME\<close>: two 32-bit halves. \<^verbatim>\<open>ULARGE_INTEGER\<close> is the union of
  the pair (LowPart, HighPart) with the 64-bit \<^verbatim>\<open>QuadPart\<close>; only \<^verbatim>\<open>QuadPart\<close> is read
  by the sampler, so a \<^verbatim>\<open>ULARGE_INTEGER\<close> is a 64-bit word.
\<close>

record FILETIME =
  dwLowDateTime :: "32 word"
  dwHighDateTime :: "32 word"

type_synonym ULARGE_INTEGER = "64 word"

text \<open>The private state of \<^verbatim>\<open>class CpuMonitor\<close>: the previous snapshot.\<close>

record CpuMonitor =
  lastIdleTime :: ULARGE_INTEGER
  lastKernelTime :: ULARGE_INTEGER
  lastUserTime :: ULARGE_INTEGER

text \<open>
  What \<^verbatim>\<open>GetSystemTimes(&idleTime, &kernelTime, &userTime)\<close> delivers: \<open>None\<close> when
  the call returns FALSE, otherwise the three times (idle, kernel, user).
\<close>

type_synonym system_times = "FILETIME \<times> FILETIME \<times> FILETIME"

subsection \<open>The CPU sampler\<close>

text \<open>\<^verbatim>\<open>CpuMonitor::CpuMonitor()\<close>: the three previous times start at zero.\<close>

definition CpuMonitor_ctor :: CpuMonitor where
  "CpuMonitor_ctor = \<lparr>lastIdleTime = 0, lastKernelTime = 0, lastUserTime = 0\<rparr>"

text \<open>\<^verbatim>\<open>CpuMonitor::fileTimeToInt\<close>: LowPart and HighPart of the union filled in.\<close>

definition fileTimeToInt :: "FILETIME \<Rightarrow> ULARGE_INTEGER" where
  "fileTimeToInt ft = push_bit 32 (ucast (dwHighDateTime ft)) OR ucast (dwLowDateTime ft)"

text \<open>
  \<^verbatim>\<open>CpuMonitor::getMetric\<close>. The inputs besides the object are the clock reading
  (seconds since the epoch) and the outcome of \<^verbatim>\<open>GetSystemTimes\<close>. The result is the
  returned \<^verbatim>\<open>std::optional<Metric>\<close> together with the object after the call.
  \<^verbatim>\<open>Metric m;\<close> leaves \<^verbatim>\<open>m.value\<close> indeterminate; the model starts it at 0, and
  every metric that is returned has the field assigned first, as in the code. The value
  \<^verbatim>\<open>(1.0 - ((double)deltaIdle / (double)totalSystem)) * 100.0\<close> is two conversions, a
  division, a subtraction and a multiplication of doubles.
\<close>

definition CpuMonitor_getMetric ::
  "CpuMonitor \<Rightarrow> 64 word \<Rightarrow> system_times option \<Rightarrow> fault + (Metric option \<times> CpuMonitor)" where
  "CpuMonitor_getMetric s now os =
     (let m = \<lparr>component = ''CPU'', metric = ''Usage'', mvalue = Finite 0, unit = ''%'',
               timestamp = now\<rparr>
      in case os of
           None \<Rightarrow> Inr (None, s)
         | Some (idleTime, kernelTime, userTime) \<Rightarrow>
             (let nowIdle = fileTimeToInt idleTime;
                  nowKernel = fileTimeToInt kernelTime;
                  nowUser = fileTimeToInt userTime
              in if lastIdleTime s = 0
                 then Inr (None, \<lparr>lastIdleTime = nowIdle, lastKernelTime = nowKernel,
                                  lastUserTime = nowUser\<rparr>)
                 else
                   (let deltaIdle = nowIdle - lastIdleTime s;
                        deltaKernel = nowKernel - lastKernelTime s;
                        deltaUser = nowUser - lastUserTime s;
                        s' = \<lparr>lastIdleTime = nowIdle, lastKernelTime = nowKernel,
                              lastUserTime = nowUser\<rparr>;
                        totalSystem = deltaKernel + deltaUser
                    in if totalSystem = 0
                       then Inr (Some (m\<lparr>mvalue := Finite 0\<rparr>), s')
                       else (case double_div (to_double deltaIdle) (to_double totalSystem) of
                               Inl e \<Rightarrow> Inl e
                             | Inr q \<Rightarrow>
                                 Inr (Some (m\<lparr>mvalue := double_mul (double_sub (Finite 1) q)
                                                          (Finite 100)\<rparr>), s')))))"

text \<open>
  The two 32-bit members of the union \<^verbatim>\<open>ULARGE_INTEGER\<close>, read back from \<^verbatim>\<open>QuadPart\<close>.
\<close>

definition LowPart :: "ULARGE_INTEGER \<Rightarrow> 32 word" where
  "LowPart q = ucast q"

definition HighPart :: "ULARGE_INTEGER \<Rightarrow> 32 word" where
  "HighPart q = ucast (drop_bit 32 q)"

text \<open>
  The baseline the sampler stores from one reading: the three times as 64-bit counts.
\<close>

definition snapshot :: "system_times \<Rightarrow> CpuMonitor" where
  "snapshot r =
     (case r of (idleTime, kernelTime, userTime) \<Rightarrow>
        \<lparr>lastIdleTime = fileTimeToInt idleTime, lastKernelTime = fileTimeToInt kernelTime,
         lastUserTime = fileTimeToInt userTime\<rparr>)"

text \<open>
  The driver loop of main.cpp calls \<^verbatim>\<open>monitor.getMetric()\<close> once per tick on the same
  object. A run of the sampler is the list of its calls, each with its clock reading and
  the outcome of the OS call; the results are collected in order.
\<close>

type_synonym cpu_call = "64 word \<times> system_times option"

fun getMetric_calls ::
  "CpuMonitor \<Rightarrow> cpu_call list \<Rightarrow> fault + (Metric option list \<times> CpuMonitor)" where
  "getMetric_calls s [] = Inr ([], s)"
| "getMetric_calls s ((now, os) # cs) =
     (case CpuMonitor_getMetric s now os of
        Inl e \<Rightarrow> Inl e
      | Inr (r, s') \<Rightarrow>
          (case getMetric_calls s' cs of
             Inl e \<Rightarrow> Inl e
           | Inr (rs, s'') \<Rightarrow> Inr (r # rs, s'')))"

text \<open>The idle count of a reading, and the successful readings of a run, in order.\<close>

definition idle_ticks :: "system_times \<Rightarrow> 64 word" where
  "idle_ticks r = fileTimeToInt (fst r)"

definition readings :: "cpu_call list \<Rightarrow> system_times list" where
  "readings cs = List.map_filter snd cs"

subsection \<open>The RAM sampler\<close>

text \<open>
  The fields of \<^verbatim>\<open>MEMORYSTATUSEX\<close> that \<^verbatim>\<open>RamMonitor::getMetric\<close> touches. The outcome
  of \<^verbatim>\<open>GlobalMemoryStatusEx(&memInfo)\<close> is \<open>None\<close> when the call returns FALSE and the
  filled structure otherwise.
\<close>

record MEMORYSTATUSEX =
  dwLength :: "32 word"
  dwMemoryLoad :: "32 word"

text \<open>\<^verbatim>\<open>RamMonitor::getMetric\<close>; the class has no data members.\<close>

definition RamMonitor_getMetric :: "64 word \<Rightarrow> MEMORYSTATUSEX option \<Rightarrow> Metric option" where
  "RamMonitor_getMetric now os =
     (let m = \<lparr>component = ''RAM'', metric = ''Usage'', mvalue = Finite 0, unit = ''%'',
               timestamp = now\<rparr>
      in case os of
           None \<Rightarrow> None
         | Some memInfo \<Rightarrow> Some (m\<lparr>mvalue := dword_to_double (dwMemoryLoad memInfo)\<rparr>))"

section \<open>SysPulse: the metric store (db_manager.hpp, db_manager.cpp)\<close>

subsection \<open>The SQLite library as the store sees it\<close>

text \<open>
  SQLite is an external library. Its state, as far as \<^verbatim>\<open>DatabaseManager\<close> can observe or
  change it, is: the connections opened and not yet closed, the number of prepared
  statements not yet finalized, and the rows of the table \<^verbatim>\<open>metrics\<close> (without the
  \<^verbatim>\<open>id\<close> column). The result codes the library delivers are inputs of the model.
\<close>

definition SQLITE_OK :: int where
  "SQLITE_OK = 0"

definition SQLITE_CONSTRAINT :: int where
  "SQLITE_CONSTRAINT = 19"

definition SQLITE_DONE :: int where
  "SQLITE_DONE = 101"

type_synonym sqlite3 = nat

datatype sql_value = SqlNull | SqlText string | SqlReal double | SqlInt "64 word"

type_synonym sqlite3_stmt = "sql_value list"

record sqlite_world =
  open_handles :: "sqlite3 set"
  live_stmts :: nat
  metrics_rows :: "sql_value list list"

text \<open>
  \<^verbatim>\<open>sqlite3_open(path, &db)\<close> delivers a result code and writes a handle; a handle is
  written also when the call fails, unless the library could not allocate it (then NULL
  is written). A written handle is a connection that stays allocated until it is closed.
\<close>

definition sqlite3_open ::
  "int \<times> sqlite3 option \<Rightarrow> sqlite_world \<Rightarrow> int \<times> sqlite3 option \<times> sqlite_world" where
  "sqlite3_open res w =
     (case res of (rc, h) \<Rightarrow>
        (rc, h, case h of None \<Rightarrow> w
                       | Some c \<Rightarrow> w\<lparr>open_handles := insert c (open_handles w)\<rparr>))"

definition sqlite3_close :: "sqlite3 \<Rightarrow> sqlite_world \<Rightarrow> sqlite_world" where
  "sqlite3_close c w = w\<lparr>open_handles := open_handles w - {c}\<rparr>"

text \<open>
  \<^verbatim>\<open>sqlite3_exec\<close> of the statement \<^verbatim>\<open>CREATE TABLE IF NOT EXISTS metrics (...)\<close>: it
  delivers a result code and removes no row.
\<close>

definition sqlite3_exec :: "int \<Rightarrow> sqlite_world \<Rightarrow> int \<times> sqlite_world" where
  "sqlite3_exec rc w = (rc, w)"

text \<open>
  \<^verbatim>\<open>sqlite3_prepare_v2\<close> of the five-parameter INSERT: on \<^verbatim>\<open>SQLITE_OK\<close> a statement
  exists whose parameters are all NULL until they are bound; on any other code no
  statement is created (the empty parameter list stands for the NULL written to
  \<^verbatim>\<open>stmt\<close>).
\<close>

definition sqlite3_prepare_v2 ::
  "int \<Rightarrow> sqlite_world \<Rightarrow> int \<times> sqlite3_stmt \<times> sqlite_world" where
  "sqlite3_prepare_v2 rc w =
     (if rc = SQLITE_OK
      then (rc, replicate 5 SqlNull, w\<lparr>live_stmts := Suc (live_stmts w)\<rparr>)
      else (rc, [], w))"

text \<open>
  \<^verbatim>\<open>sqlite3_bind_text\<close>, \<^verbatim>\<open>sqlite3_bind_double\<close>, \<^verbatim>\<open>sqlite3_bind_int64\<close>: parameter
  \<open>idx\<close> (counted from 1) takes the value when the call delivers \<^verbatim>\<open>SQLITE_OK\<close> and stays
  as it was otherwise. The text is passed as a pointer with the length \<open>- 1\<close>, so the
  library reads it up to the first character 0 and copies that much
  (\<^verbatim>\<open>SQLITE_TRANSIENT\<close>); \<open>c_str\<close> is what it reads of a \<^verbatim>\<open>std::string\<close>. The library binds
  a NaN as NULL.
\<close>

definition c_str :: "string \<Rightarrow> string" where
  "c_str s = takeWhile (\<lambda>c. c \<noteq> CHR 0x00) s"

definition sqlite3_bind_text :: "int \<Rightarrow> sqlite3_stmt \<Rightarrow> nat \<Rightarrow> string \<Rightarrow> sqlite3_stmt" where
  "sqlite3_bind_text rc stmt idx chars =
     (if rc = SQLITE_OK then stmt[idx - 1 := SqlText chars] else stmt)"

definition sqlite3_bind_double :: "int \<Rightarrow> sqlite3_stmt \<Rightarrow> nat \<Rightarrow> double \<Rightarrow> sqlite3_stmt" where
  "sqlite3_bind_double rc stmt idx v =
     (if rc = SQLITE_OK then stmt[idx - 1 := (if v = NaN then SqlNull else SqlReal v)]
      else stmt)"

definition sqlite3_bind_int64 :: "int \<Rightarrow> sqlite3_stmt \<Rightarrow> nat \<Rightarrow> 64 word \<Rightarrow> sqlite3_stmt" where
  "sqlite3_bind_int64 rc stmt idx v =
     (if rc = SQLITE_OK then stmt[idx - 1 := SqlInt v] else stmt)"

text \<open>
  \<^verbatim>\<open>sqlite3_step\<close> of the INSERT. The table is the one \<^verbatim>\<open>initTables\<close> declares: its five
  columns are \<^verbatim>\<open>NOT NULL\<close>, so a statement with a NULL parameter is refused with
  \<^verbatim>\<open>SQLITE_CONSTRAINT\<close>. Otherwise the statement either completes, the row is in the
  table and \<^verbatim>\<open>SQLITE_DONE\<close> is delivered, or it fails with the code \<open>outcome\<close> and the
  table is as before (a failed statement is rolled back by the library).
\<close>

definition sqlite3_step :: "int \<Rightarrow> sqlite3_stmt \<Rightarrow> sqlite_world \<Rightarrow> int \<times> sqlite_world" where
  "sqlite3_step outcome stmt w =
     (if outcome \<noteq> SQLITE_DONE then (outcome, w)
      else if SqlNull \<in> set stmt then (SQLITE_CONSTRAINT, w)
      else (SQLITE_DONE, w\<lparr>metrics_rows := metrics_rows w @ [stmt]\<rparr>))"

definition sqlite3_finalize :: "sqlite_world \<Rightarrow> sqlite_world" where
  "sqlite3_finalize w = w\<lparr>live_stmts := live_stmts w - 1\<rparr>"

subsection \<open>DatabaseManager\<close>

text \<open>The only data member is the handle \<^verbatim>\<open>sqlite3* db\<close>; \<open>None\<close> is \<^verbatim>\<open>nullptr\<close>.\<close>

record DatabaseManager =
  db :: "sqlite3 option"

definition DatabaseManager_ctor :: DatabaseManager where
  "DatabaseManager_ctor = \<lparr>db = None\<rparr>"

text \<open>\<^verbatim>\<open>DatabaseManager::initTables\<close>; \<open>exec_rc\<close> is what \<^verbatim>\<open>sqlite3_exec\<close> delivers.\<close>

definition initTables :: "int \<Rightarrow> DatabaseManager \<Rightarrow> sqlite_world \<Rightarrow> bool \<times> sqlite_world" where
  "initTables exec_rc s w =
     (case sqlite3_exec exec_rc w of (rc, w') \<Rightarrow>
        if rc \<noteq> SQLITE_OK then (False, w') else (True, w'))"

text \<open>
  \<^verbatim>\<open>DatabaseManager::connect\<close>; \<open>open_res\<close> is what \<^verbatim>\<open>sqlite3_open\<close> delivers (the
  result code and the handle written to \<^verbatim>\<open>db\<close>).
\<close>

definition connect ::
  "int \<times> sqlite3 option \<Rightarrow> int \<Rightarrow> string \<Rightarrow> DatabaseManager \<Rightarrow> sqlite_world
     \<Rightarrow> bool \<times> DatabaseManager \<times> sqlite_world" where
  "connect open_res exec_rc dbPath s w =
     (case sqlite3_open open_res w of (rc, h, w1) \<Rightarrow>
        (let s1 = s\<lparr>db := h\<rparr>
         in if rc \<noteq> SQLITE_OK
            then (case db s1 of
                    Some c \<Rightarrow> (False, s1\<lparr>db := None\<rparr>, sqlite3_close c w1)
                  | None \<Rightarrow> (False, s1, w1))
            else (case initTables exec_rc s1 w1 of (ok, w2) \<Rightarrow> (ok, s1, w2))))"

text \<open>\<^verbatim>\<open>DatabaseManager::~DatabaseManager\<close>.\<close>

definition DatabaseManager_dtor ::
  "DatabaseManager \<Rightarrow> sqlite_world \<Rightarrow> DatabaseManager \<times> sqlite_world" where
  "DatabaseManager_dtor s w =
     (case db s of
        Some c \<Rightarrow> (s\<lparr>db := None\<rparr>, sqlite3_close c w)
      | None \<Rightarrow> (s, w))"

text \<open>
  What the library delivers during one \<^verbatim>\<open>insertMetric\<close>: the result code of
  \<^verbatim>\<open>sqlite3_prepare_v2\<close>, those of the five bind calls (by parameter index; the code
  discards them), and the outcome of \<^verbatim>\<open>sqlite3_step\<close>.
\<close>

record insert_env =
  prepare_rc :: int
  bind_rc :: "nat \<Rightarrow> int"
  step_rc :: int

text \<open>\<^verbatim>\<open>DatabaseManager::insertMetric\<close>: the returned flag and the library state.\<close>

definition insertMetric ::
  "insert_env \<Rightarrow> Metric \<Rightarrow> DatabaseManager \<Rightarrow> sqlite_world \<Rightarrow> bool \<times> sqlite_world" where
  "insertMetric env m s w =
     (case db s of
        None \<Rightarrow> (False, w)
      | Some c \<Rightarrow>
          (case sqlite3_prepare_v2 (prepare_rc env) w of
             (rc, stmt, w1) \<Rightarrow>
               if rc \<noteq> SQLITE_OK then (False, w1)
               else
                 (let stmt1 = sqlite3_bind_text (bind_rc env 1) stmt 1 (c_str (component m));
                      stmt2 = sqlite3_bind_text (bind_rc env 2) stmt1 2 (c_str (metric m));
                      stmt3 = sqlite3_bind_double (bind_rc env 3) stmt2 3 (mvalue m);
                      stmt4 = sqlite3_bind_text (bind_rc env 4) stmt3 4 (c_str (unit m));
                      stmt5 = sqlite3_bind_int64 (bind_rc env 5) stmt4 5 (timestamp m)
                  in case sqlite3_step (step_rc env) stmt5 w1 of (rc2, w2) \<Rightarrow>
                       if rc2 \<noteq> SQLITE_DONE then (False, sqlite3_finalize w2)
                       else (True, sqlite3_finalize w2))))"

text \<open>
  The row a metric becomes: its five fields in column order, each text as the library
  reads it.
\<close>

definition metric_row :: "Metric \<Rightarrow> sql_value list" where
  "metric_row m =
     [SqlText (c_str (component m)), SqlText (c_str (metric m)), SqlReal (mvalue m),
      SqlText (c_str (unit m)), SqlInt (timestamp m)]"

section \<open>Properties of the double arithmetic\<close>

subsection \<open>Rounding to an integer\<close>

lemma rne_cases: "rne x = \<lfloor>x\<rfloor> \<or> rne x = \<lfloor>x\<rfloor> + 1"
  by (simp add: rne_def Let_def)

lemma rne_of_int [simp]: "rne (of_int n) = n"
  by (simp add: rne_def)

lemma rne_lower: "of_int n \<le> x \<Longrightarrow> n \<le> rne x"
proof -
  assume "of_int n \<le> x"
  then have "n \<le> \<lfloor>x\<rfloor>" by (simp add: le_floor_iff)
  with rne_cases [of x] show ?thesis by auto
qed

lemma rne_upper: "x \<le> of_int n \<Longrightarrow> rne x \<le> n"
proof (cases "x = of_int n")
  case True
  then show ?thesis by simp
next
  case False
  assume "x \<le> of_int n"
  with False have "x < of_int n" by simp
  then have "\<lfloor>x\<rfloor> < n" by (simp add: floor_less_iff)
  with rne_cases [of x] show ?thesis by auto
qed

lemma rne_mono: "x \<le> y \<Longrightarrow> rne x \<le> rne y"
proof -
  assume xy: "x \<le> y"
  then have f: "\<lfloor>x\<rfloor> \<le> \<lfloor>y\<rfloor>" by (rule floor_mono)
  show ?thesis
  proof (cases "\<lfloor>x\<rfloor> = \<lfloor>y\<rfloor>")
    case True
    with xy show ?thesis
      by (auto simp: rne_def Let_def)
  next
    case False
    with f have "\<lfloor>x\<rfloor> + 1 \<le> \<lfloor>y\<rfloor>" by simp
    with rne_cases [of x] rne_cases [of y] show ?thesis by auto
  qed
qed

lemma rne_error: "\<bar>of_int (rne x) - x\<bar> \<le> 1 / 2"
proof -
  have "of_int \<lfloor>x\<rfloor> \<le> x" "x < of_int \<lfloor>x\<rfloor> + 1"
    by linarith+
  then show ?thesis
    by (auto simp: rne_def Let_def abs_le_iff)
qed

subsection \<open>Exponent and quantum\<close>

lemma two_powr_int: "(2::real) powr (of_int k) = 2 powi k"
  by (simp add: powr_real_of_int')

lemma two_powr_int_Suc: "(2::real) powr (of_int k + 1) = 2 powi (k + 1)"
  using two_powr_int [of "k + 1"] by simp

lemma exponent_bounds:
  assumes "x \<noteq> 0"
  shows "2 powi \<lfloor>log 2 \<bar>x\<bar>\<rfloor> \<le> \<bar>x\<bar>" and "\<bar>x\<bar> < 2 powi (\<lfloor>log 2 \<bar>x\<bar>\<rfloor> + 1)"
proof -
  from assms have pos: "0 < \<bar>x\<bar>" by simp
  have "(2::real) powr \<lfloor>log 2 \<bar>x\<bar>\<rfloor> \<le> \<bar>x\<bar> \<and> \<bar>x\<bar> < 2 powr (\<lfloor>log 2 \<bar>x\<bar>\<rfloor> + 1)"
    using floor_log_eq_powr_iff [OF pos, of 2 "\<lfloor>log 2 \<bar>x\<bar>\<rfloor>"] by simp
  then show "2 powi \<lfloor>log 2 \<bar>x\<bar>\<rfloor> \<le> \<bar>x\<bar>" and "\<bar>x\<bar> < 2 powi (\<lfloor>log 2 \<bar>x\<bar>\<rfloor> + 1)"
    by (simp_all only: two_powr_int two_powr_int_Suc)
qed

lemma floor_log2_eqI:
  assumes "2 powi k \<le> \<bar>x\<bar>" and "\<bar>x\<bar> < 2 powi (k + 1)"
  shows "\<lfloor>log 2 \<bar>x\<bar>\<rfloor> = k"
proof -
  have "0 < (2::real) powi k" by simp
  with assms(1) have pos: "0 < \<bar>x\<bar>" by linarith
  have "(2::real) powr k \<le> \<bar>x\<bar> \<and> \<bar>x\<bar> < 2 powr (k + 1)"
    using assms by (simp only: two_powr_int two_powr_int_Suc)
  then show ?thesis
    using floor_log_eq_powr_iff [OF pos, of 2 k] by simp
qed

lemma double_exponent_ge: "- 1022 \<le> double_exponent x"
  by (simp add: double_exponent_def)

lemma double_exponent_upper:
  assumes "x \<noteq> 0"
  shows "\<bar>x\<bar> < 2 powi (double_exponent x + 1)"
proof -
  have "\<lfloor>log 2 \<bar>x\<bar>\<rfloor> + 1 \<le> double_exponent x + 1"
    by (simp add: double_exponent_def)
  then have "(2::real) powi (\<lfloor>log 2 \<bar>x\<bar>\<rfloor> + 1) \<le> 2 powi (double_exponent x + 1)"
    by (intro power_int_increasing) simp_all
  with exponent_bounds(2) [OF assms] show ?thesis by linarith
qed

lemma double_exponent_lower:
  assumes "x \<noteq> 0" and "- 1022 < double_exponent x"
  shows "2 powi double_exponent x \<le> \<bar>x\<bar>"
proof -
  from assms(2) have "double_exponent x = \<lfloor>log 2 \<bar>x\<bar>\<rfloor>"
    by (simp add: double_exponent_def max_def split: if_splits)
  with exponent_bounds(1) [OF assms(1)] show ?thesis by simp
qed

lemma double_exponent_eqI:
  assumes "2 powi k \<le> \<bar>x\<bar>" and "\<bar>x\<bar> < 2 powi (k + 1)" and "- 1022 \<le> k"
  shows "double_exponent x = k"
  using floor_log2_eqI [OF assms(1,2)] assms(3) by (simp add: double_exponent_def)

lemma double_exponent_mono:
  assumes "0 < x" and "x \<le> y"
  shows "double_exponent x \<le> double_exponent y"
proof -
  from assms have "log 2 \<bar>x\<bar> \<le> log 2 \<bar>y\<bar>" by simp
  then have "\<lfloor>log 2 \<bar>x\<bar>\<rfloor> \<le> \<lfloor>log 2 \<bar>y\<bar>\<rfloor>" by (rule floor_mono)
  then show ?thesis by (simp add: double_exponent_def)
qed

subsection \<open>Rounding to the nearest double\<close>

lemma round_nearest_quantum:
  "x \<noteq> 0 \<Longrightarrow> round_nearest x = of_int (rne (x / double_quantum x)) * double_quantum x"
  by (simp add: round_nearest_def)

lemma double_quantum_pos: "0 < double_quantum x"
  by (simp add: double_quantum_def)

lemma round_nearest_0 [simp]: "round_nearest 0 = 0"
  by (simp add: round_nearest_def)

lemma quantum_times_2_53: "of_int (2 ^ 53) * double_quantum x = 2 powi (double_exponent x + 1)"
proof -
  have "double_exponent x + 1 = 53 + (double_exponent x - 52)"
    by simp
  then have "(2::real) powi (double_exponent x + 1) = 2 powi (53 + (double_exponent x - 52))"
    by (simp only:)
  also have "\<dots> = 2 powi 53 * 2 powi (double_exponent x - 52)"
    by (subst power_int_add) simp_all
  finally show ?thesis
    by (simp add: double_quantum_def)
qed

lemma quantum_times_2_52: "of_int (2 ^ 52) * double_quantum x = 2 powi double_exponent x"
proof -
  have "double_exponent x = 52 + (double_exponent x - 52)"
    by simp
  then have "(2::real) powi double_exponent x = 2 powi (52 + (double_exponent x - 52))"
    by (simp only:)
  also have "\<dots> = 2 powi 52 * 2 powi (double_exponent x - 52)"
    by (subst power_int_add) simp_all
  finally show ?thesis
    by (simp add: double_quantum_def)
qed

lemma round_nearest_nonneg:
  assumes "0 \<le> x"
  shows "0 \<le> round_nearest x"
proof (cases "x = 0")
  case True
  then show ?thesis by simp
next
  case False
  from assms double_quantum_pos [of x] have "of_int 0 \<le> x / double_quantum x"
    by simp
  then have "0 \<le> rne (x / double_quantum x)"
    by (rule rne_lower)
  with double_quantum_pos [of x] show ?thesis
    by (simp add: round_nearest_quantum [OF False])
qed

lemma round_nearest_upper_binade:
  assumes "0 < x"
  shows "round_nearest x \<le> 2 powi (double_exponent x + 1)"
proof -
  from assms have nz: "x \<noteq> 0" by simp
  from double_exponent_upper [OF nz] assms have "x \<le> of_int (2 ^ 53) * double_quantum x"
    by (simp only: quantum_times_2_53)
  with double_quantum_pos [of x] have "x / double_quantum x \<le> of_int (2 ^ 53)"
    by (simp add: pos_divide_le_eq)
  then have "rne (x / double_quantum x) \<le> 2 ^ 53"
    by (rule rne_upper)
  then have "real_of_int (rne (x / double_quantum x)) \<le> of_int (2 ^ 53)"
    by (simp only: of_int_le_iff)
  with double_quantum_pos [of x]
  have "of_int (rne (x / double_quantum x)) * double_quantum x \<le> of_int (2 ^ 53) * double_quantum x"
    by (intro mult_right_mono) simp_all
  then show ?thesis
    by (simp only: round_nearest_quantum [OF nz] quantum_times_2_53)
qed

lemma round_nearest_lower_binade:
  assumes "0 < x" and "- 1022 < double_exponent x"
  shows "2 powi double_exponent x \<le> round_nearest x"
proof -
  from assms have nz: "x \<noteq> 0" by simp
  from double_exponent_lower [OF nz assms(2)] assms(1) have "of_int (2 ^ 52) * double_quantum x \<le> x"
    by (simp only: quantum_times_2_52)
  with double_quantum_pos [of x] have "of_int (2 ^ 52) \<le> x / double_quantum x"
    by (simp add: pos_le_divide_eq)
  then have "2 ^ 52 \<le> rne (x / double_quantum x)"
    by (rule rne_lower)
  then have "of_int (2 ^ 52) \<le> real_of_int (rne (x / double_quantum x))"
    by (simp only: of_int_le_iff)
  with double_quantum_pos [of x]
  have "of_int (2 ^ 52) * double_quantum x \<le> of_int (rne (x / double_quantum x)) * double_quantum x"
    by (intro mult_right_mono) simp_all
  then show ?thesis
    by (simp only: round_nearest_quantum [OF nz] quantum_times_2_52)
qed

lemma round_nearest_mono_pos:
  assumes "0 < x" and "x \<le> y"
  shows "round_nearest x \<le> round_nearest y"
proof -
  from assms have nzx: "x \<noteq> 0" and nzy: "y \<noteq> 0" and ypos: "0 < y" by simp_all
  have le: "double_exponent x \<le> double_exponent y"
    by (rule double_exponent_mono [OF assms])
  show ?thesis
  proof (cases "double_exponent x = double_exponent y")
    case True
    then have q: "double_quantum x = double_quantum y"
      by (simp add: double_quantum_def)
    from assms(2) double_quantum_pos [of y] have "x / double_quantum y \<le> y / double_quantum y"
      by (simp add: divide_right_mono)
    then have "rne (x / double_quantum y) \<le> rne (y / double_quantum y)"
      by (rule rne_mono)
    then have "real_of_int (rne (x / double_quantum y)) \<le> of_int (rne (y / double_quantum y))"
      by (simp only: of_int_le_iff)
    with double_quantum_pos [of y]
    have "of_int (rne (x / double_quantum y)) * double_quantum y
            \<le> of_int (rne (y / double_quantum y)) * double_quantum y"
      by (intro mult_right_mono) simp_all
    then show ?thesis
      by (simp only: round_nearest_quantum [OF nzx] round_nearest_quantum [OF nzy] q)
  next
    case False
    with le have lt: "double_exponent x + 1 \<le> double_exponent y" by simp
    with double_exponent_ge [of x] have "- 1022 < double_exponent y" by linarith
    from round_nearest_lower_binade [OF ypos this]
    have "2 powi double_exponent y \<le> round_nearest y" .
    moreover from lt have "(2::real) powi (double_exponent x + 1) \<le> 2 powi double_exponent y"
      by (intro power_int_increasing) simp_all
    moreover note round_nearest_upper_binade [OF assms(1)]
    ultimately show ?thesis by linarith
  qed
qed

lemma round_nearest_mono_nonneg:
  assumes "0 \<le> x" and "x \<le> y"
  shows "round_nearest x \<le> round_nearest y"
proof (cases "x = 0")
  case True
  with assms round_nearest_nonneg [of y] show ?thesis by simp
next
  case False
  with assms(1) have "0 < x" by simp
  then show ?thesis using assms(2) by (rule round_nearest_mono_pos)
qed

lemma round_nearest_exact:
  assumes x: "x = of_int m * 2 powi k" and m: "\<bar>m\<bar> < 2 ^ 53" and k: "- 1074 \<le> k"
  shows "round_nearest x = x"
proof (cases "x = 0")
  case True
  then show ?thesis by simp
next
  case False
  have "\<bar>x\<bar> = of_int \<bar>m\<bar> * 2 powi k"
    by (simp add: x abs_mult)
  also from m have "\<dots> < of_int (2 ^ 53) * 2 powi k"
    by (intro mult_strict_right_mono) (simp_all only: of_int_less_iff zero_less_power_int zero_less_numeral)
  also have "\<dots> = 2 powi (53 + k)"
    by (subst power_int_add) simp_all
  finally have up: "\<bar>x\<bar> < 2 powi (53 + k)" .
  have "\<lfloor>log 2 \<bar>x\<bar>\<rfloor> < 53 + k"
  proof (rule ccontr)
    assume "\<not> \<lfloor>log 2 \<bar>x\<bar>\<rfloor> < 53 + k"
    then have "53 + k \<le> \<lfloor>log 2 \<bar>x\<bar>\<rfloor>" by simp
    then have "(2::real) powi (53 + k) \<le> 2 powi \<lfloor>log 2 \<bar>x\<bar>\<rfloor>"
      by (intro power_int_increasing) simp_all
    with exponent_bounds(1) [OF False] up show False by linarith
  qed
  with k have e: "double_exponent x - 52 \<le> k"
    by (simp add: double_exponent_def)
  define j where "j = nat (k - (double_exponent x - 52))"
  from e have kj: "k = int j + (double_exponent x - 52)"
    by (simp add: j_def)
  have "(2::real) powi k = 2 powi (int j) * double_quantum x"
    by (subst kj, subst power_int_add) (simp_all add: double_quantum_def)
  then have xq: "x = of_int (m * 2 ^ j) * double_quantum x"
    by (simp add: x)
  have "double_quantum x \<noteq> 0"
    using double_quantum_pos [of x] by simp
  from this xq have "x / double_quantum x = of_int (m * 2 ^ j)"
    by (rule divide_eq_imp)
  then have "rne (x / double_quantum x) = m * 2 ^ j"
    by (simp only: rne_of_int)
  with xq show ?thesis
    by (simp only: round_nearest_quantum [OF False])
qed

lemma round_nearest_of_int:
  assumes "\<bar>n\<bar> < 2 ^ 53"
  shows "round_nearest (of_int n) = of_int n"
  using assms by (intro round_nearest_exact [of _ n 0]) simp_all

lemma round_nearest_error_quantum:
  assumes "x \<noteq> 0"
  shows "\<bar>round_nearest x - x\<bar> \<le> double_quantum x / 2"
proof -
  let ?q = "double_quantum x"
  have q: "0 < ?q" by (rule double_quantum_pos)
  have "round_nearest x - x = (of_int (rne (x / ?q)) - x / ?q) * ?q"
    using q by (simp add: round_nearest_quantum [OF assms] algebra_simps)
  then have "\<bar>round_nearest x - x\<bar> = \<bar>of_int (rne (x / ?q)) - x / ?q\<bar> * ?q"
    using q by (simp add: abs_mult)
  also have "\<dots> \<le> (1 / 2) * ?q"
    using q rne_error [of "x / ?q"] by (intro mult_right_mono) simp_all
  finally show ?thesis by simp
qed



lemma double_exponent_lower_normal:
  assumes "2 powi (- 1022) \<le> \<bar>x\<bar>"
  shows "2 powi double_exponent x \<le> \<bar>x\<bar>"
proof -
  have "0 < (2::real) powi (- 1022)" by (rule zero_less_power_int) simp
  with assms have "0 < \<bar>x\<bar>" by linarith
  then have nz: "x \<noteq> 0" by simp
  have "- 1022 \<le> \<lfloor>log 2 \<bar>x\<bar>\<rfloor>"
  proof (rule ccontr)
    assume "\<not> - 1022 \<le> \<lfloor>log 2 \<bar>x\<bar>\<rfloor>"
    then have "\<lfloor>log 2 \<bar>x\<bar>\<rfloor> + 1 \<le> - 1022" by linarith
    then have "(2::real) powi (\<lfloor>log 2 \<bar>x\<bar>\<rfloor> + 1) \<le> 2 powi (- 1022)"
      by (intro power_int_increasing) simp_all
    with exponent_bounds(2) [OF nz] assms show False by linarith
  qed
  then have "double_exponent x = \<lfloor>log 2 \<bar>x\<bar>\<rfloor>"
    by (simp add: double_exponent_def)
  with exponent_bounds(1) [OF nz] show ?thesis by simp
qed

lemma round_nearest_eval:
  assumes "2 powi k \<le> \<bar>x\<bar>" and "\<bar>x\<bar> < 2 powi (k + 1)" and "- 1022 \<le> k"
  shows "round_nearest x = of_int (rne (x / 2 powi (k - 52))) * 2 powi (k - 52)"
proof -
  have "0 < (2::real) powi k" by (rule zero_less_power_int) simp
  with assms(1) have "0 < \<bar>x\<bar>" by linarith
  then have nz: "x \<noteq> 0" by simp
  show ?thesis
    by (simp add: round_nearest_quantum [OF nz] double_quantum_def double_exponent_eqI [OF assms])
qed

lemma quantum_half: "double_quantum x / 2 = 2 powi double_exponent x / 2 ^ 53"
proof -
  have "(2::real) powi double_exponent x = 2 powi (52 + (double_exponent x - 52))"
    by simp
  also have "\<dots> = 2 ^ 52 * double_quantum x"
    unfolding double_quantum_def by (subst power_int_add) simp_all
  finally show ?thesis by simp
qed

lemma round_nearest_error_normal:
  assumes "2 powi (- 1022) \<le> \<bar>x\<bar>"
  shows "\<bar>round_nearest x - x\<bar> \<le> \<bar>x\<bar> / 2 ^ 53"
proof -
  have "0 < (2::real) powi (- 1022)" by (rule zero_less_power_int) simp
  with assms have "0 < \<bar>x\<bar>" by linarith
  then have nz: "x \<noteq> 0" by simp
  from double_exponent_lower_normal [OF assms]
  have "2 powi double_exponent x / 2 ^ 53 \<le> \<bar>x\<bar> / 2 ^ 53"
    by (simp add: divide_right_mono)
  with round_nearest_error_quantum [OF nz] show ?thesis
    by (simp only: quantum_half)
qed

lemma double_exponent_subnormal:
  assumes "x \<noteq> 0" and "\<bar>x\<bar> < 2 powi (- 1022)"
  shows "double_exponent x = - 1022"
proof -
  have "\<lfloor>log 2 \<bar>x\<bar>\<rfloor> < - 1022"
  proof (rule ccontr)
    assume "\<not> \<lfloor>log 2 \<bar>x\<bar>\<rfloor> < - 1022"
    then have "- 1022 \<le> \<lfloor>log 2 \<bar>x\<bar>\<rfloor>" by simp
    then have "(2::real) powi (- 1022) \<le> 2 powi \<lfloor>log 2 \<bar>x\<bar>\<rfloor>"
      by (intro power_int_increasing) simp_all
    with exponent_bounds(1) [OF assms(1)] assms(2) show False by linarith
  qed
  then show ?thesis by (simp add: double_exponent_def)
qed

lemma round_nearest_error:
  "\<bar>round_nearest x - x\<bar> \<le> (\<bar>x\<bar> + 1) / 2 ^ 53"
proof (cases "2 powi (- 1022) \<le> \<bar>x\<bar>")
  case True
  have "\<bar>x\<bar> / 2 ^ 53 \<le> (\<bar>x\<bar> + 1) / 2 ^ 53"
    by (simp add: divide_right_mono)
  with round_nearest_error_normal [OF True] show ?thesis by linarith
next
  case False
  then have small: "\<bar>x\<bar> < 2 powi (- 1022)" by simp
  show ?thesis
  proof (cases "x = 0")
    case True
    then show ?thesis by simp
  next
    case nz: False
    have "double_quantum x / 2 = 2 powi (- 1022) / 2 ^ 53"
      by (simp only: quantum_half double_exponent_subnormal [OF nz small])
    also have "\<dots> \<le> 1 / 2 ^ 53"
      by (simp add: power_int_minus field_simps)
    also have "\<dots> \<le> (\<bar>x\<bar> + 1) / 2 ^ 53"
      by (simp add: divide_right_mono)
    finally show ?thesis
      using round_nearest_error_quantum [OF nz] by linarith
  qed
qed

subsection \<open>Results of operations\<close>

lemma round_double_Finite:
  assumes "- (2 ^ 1024) < round_nearest x" and "round_nearest x < 2 ^ 1024"
  shows "round_double x = Finite (round_nearest x)"
  using assms by (simp add: round_double_def Let_def)

lemma round_double_range:
  assumes "0 \<le> x" and "x \<le> c" and "round_nearest c = c" and "c < 2 ^ 1024"
  shows "round_double x = Finite (round_nearest x)"
    and "0 \<le> round_nearest x" and "round_nearest x \<le> c"
proof -
  show nonneg: "0 \<le> round_nearest x"
    by (rule round_nearest_nonneg [OF assms(1)])
  from round_nearest_mono_nonneg [OF assms(1,2)] assms(3)
  show le: "round_nearest x \<le> c" by simp
  have "- (2 ^ 1024) < (0::real)" by simp
  with nonneg have "- (2 ^ 1024) < round_nearest x" by linarith
  moreover from le assms(4) have "round_nearest x < 2 ^ 1024" by linarith
  ultimately show "round_double x = Finite (round_nearest x)"
    by (rule round_double_Finite)
qed

lemma round_nearest_2_64: "round_nearest (2 ^ 64) = 2 ^ 64"
  by (rule round_nearest_exact [of _ 1 64]) simp_all

lemma round_nearest_1: "round_nearest 1 = 1"
  using round_nearest_of_int [of 1] by simp

lemma round_nearest_100: "round_nearest 100 = 100"
  using round_nearest_of_int [of 100] by simp

lemma round_nearest_of_nat:
  assumes "n < 2 ^ 53"
  shows "round_nearest (real n) = real n"
proof -
  from assms have "\<bar>int n\<bar> < 2 ^ 53" by simp
  from round_nearest_of_int [OF this] show ?thesis by simp
qed

lemma round_nearest_of_nat_ge_1:
  assumes "0 < n"
  shows "1 \<le> round_nearest (real n)"
proof -
  from assms have "1 \<le> real n" by simp
  from round_nearest_mono_nonneg [OF _ this] show ?thesis
    by (simp add: round_nearest_1)
qed

lemma round_double_of_nat:
  assumes "n < 2 ^ 64"
  shows "round_double (real n) = Finite (round_nearest (real n))"
    and "0 \<le> round_nearest (real n)"
    and "round_nearest (real n) \<le> 2 ^ 64"
proof -
  from assms have "real n < 2 ^ 64"
    by (metis of_nat_less_iff of_nat_numeral of_nat_power)
  then have le: "real n \<le> 2 ^ 64" by simp
  have nonneg: "0 \<le> real n" by simp
  have lt: "(2::real) ^ 64 < 2 ^ 1024" by simp
  show "round_double (real n) = Finite (round_nearest (real n))"
    by (rule round_double_range(1) [OF nonneg le round_nearest_2_64 lt])
  show "0 \<le> round_nearest (real n)"
    by (rule round_double_range(2) [OF nonneg le round_nearest_2_64 lt])
  show "round_nearest (real n) \<le> 2 ^ 64"
    by (rule round_double_range(3) [OF nonneg le round_nearest_2_64 lt])
qed

lemma unat_less_2_64: "unat (x :: 64 word) < 2 ^ 64"
  using unsigned_less [of x, where 'a = nat] by simp

lemma unat_less_2_32: "unat (x :: 32 word) < 2 ^ 32"
  using unsigned_less [of x, where 'a = nat] by simp

lemma to_double_Finite:
  "to_double x = Finite (round_nearest (real (unat x)))"
  unfolding to_double_def by (rule round_double_of_nat(1) [OF unat_less_2_64])

lemma round_nearest_count_ge_1:
  assumes "x \<noteq> 0"
  shows "1 \<le> round_nearest (real (unat x))"
proof -
  from assms have "0 < unat x" by (simp add: unat_gt_0)
  then show ?thesis by (rule round_nearest_of_nat_ge_1)
qed

lemma to_double_eq_0: "to_double x = Finite 0 \<longleftrightarrow> x = 0"
proof
  assume "to_double x = Finite 0"
  then have z: "round_nearest (real (unat x)) = 0"
    by (simp only: to_double_Finite double.inject)
  show "x = 0"
  proof (rule ccontr)
    assume "x \<noteq> 0"
    from round_nearest_count_ge_1 [OF this] z show False by linarith
  qed
next
  assume "x = 0"
  then show "to_double x = Finite 0"
    by (simp add: to_double_Finite)
qed

lemma to_double_exact:
  assumes "unat x < 2 ^ 53"
  shows "to_double x = Finite (real (unat x))"
  by (simp only: to_double_Finite round_nearest_of_nat [OF assms])

lemma round_double_small_nat:
  assumes "n < 2 ^ 53"
  shows "round_double (real n) = Finite (real n)"
proof -
  from assms have "n < 2 ^ 64" by simp
  from round_double_of_nat(1) [OF this] round_nearest_of_nat [OF assms]
  show ?thesis by (simp only:)
qed

lemma dword_to_double_exact: "dword_to_double x = Finite (real (unat x))"
proof -
  from unat_less_2_32 [of x] have "unat x < 2 ^ 53" by simp
  then show ?thesis
    unfolding dword_to_double_def by (rule round_double_small_nat)
qed

lemma to_double_rounds_large_counts:
  "to_double 9007199254740993 = Finite 9007199254740992"
proof -
  have "round_nearest 9007199254740993 = 9007199254740992"
    by (subst round_nearest_eval [of 53]) (simp_all add: rne_def power_int_minus)
  then show ?thesis
    by (simp add: to_double_def round_double_def)
qed

lemma round_double_bounded:
  assumes "\<bar>z\<bar> \<le> M" and "2 * M + 1 < 2 ^ 1024"
  shows "round_double z = Finite (round_nearest z)" and "\<bar>round_nearest z\<bar> \<le> 2 * M + 1"
proof -
  have "(\<bar>z\<bar> + 1) / 2 ^ 53 \<le> \<bar>z\<bar> + 1"
    by (simp add: field_simps)
  with round_nearest_error [of z] have "\<bar>round_nearest z - z\<bar> \<le> \<bar>z\<bar> + 1"
    by linarith
  with assms(1) show b: "\<bar>round_nearest z\<bar> \<le> 2 * M + 1"
    by linarith
  with assms(2) have "- (2 ^ 1024) < round_nearest z" and "round_nearest z < 2 ^ 1024"
    by linarith+
  then show "round_double z = Finite (round_nearest z)"
    by (rule round_double_Finite)
qed

lemma round_step:
  assumes "\<bar>z\<bar> + 1 \<le> k * X"
  shows "\<bar>round_nearest z - z\<bar> \<le> k * (X / 2 ^ 53)"
proof -
  from assms have "(\<bar>z\<bar> + 1) / 2 ^ 53 \<le> k * X / 2 ^ 53"
    by (simp add: divide_right_mono)
  with round_nearest_error [of z] show ?thesis by simp
qed

lemma quotient_error:
  fixes a b A B u :: real
  assumes a: "0 \<le> a" and b: "1 \<le> b" and u: "0 \<le> u" "u \<le> 1 / 4"
    and eA: "\<bar>A - a\<bar> \<le> u * (a + 1)" and eB: "\<bar>B - b\<bar> \<le> u * (b + 1)"
  shows "\<bar>A / B - a / b\<bar> \<le> 6 * (u * (a / b + 1))"
proof -
  define e where "e = u * (b + 1)"
  from u(2) b have "e \<le> (1 / 4) * (b + 1)"
    unfolding e_def by (intro mult_right_mono) simp_all
  moreover from eB have "\<bar>B - b\<bar> \<le> e"
    by (simp only: e_def)
  ultimately have B: "b / 2 \<le> B"
    using b by argo
  with b have Bpos: "0 < B" by linarith
  from b have bpos: "0 < b" by linarith
  have "A * b - a * B = (A - a) * b - a * (B - b)"
    by (simp add: algebra_simps)
  then have "\<bar>A * b - a * B\<bar> \<le> \<bar>A - a\<bar> * b + a * \<bar>B - b\<bar>"
    using a bpos by (simp add: abs_mult) (metis abs_triangle_ineq4 abs_mult abs_of_nonneg less_imp_le)
  also have "\<dots> \<le> u * (a + 1) * b + a * (u * (b + 1))"
    using eA eB a bpos by (intro add_mono mult_right_mono mult_left_mono) simp_all
  also have "\<dots> = u * (2 * a * b + a + b)"
    by (simp add: algebra_simps)
  also have "\<dots> \<le> u * (3 * (a + b) * b)"
  proof -
    define P Q where "P = a * b" and "Q = b * b"
    from a b have "a \<le> P" unfolding P_def by (simp add: mult_le_cancel_left1)
    moreover from b have "b \<le> Q" unfolding Q_def by simp
    moreover from b have "0 \<le> Q" unfolding Q_def by simp
    ultimately have "2 * P + a + b \<le> 3 * P + 3 * Q"
      by linarith
    moreover have "2 * a * b + a + b = 2 * P + a + b" and "3 * (a + b) * b = 3 * P + 3 * Q"
      by (simp_all add: P_def Q_def algebra_simps)
    ultimately have "2 * a * b + a + b \<le> 3 * (a + b) * b"
      by (simp only:)
    with u(1) show ?thesis by (rule mult_left_mono [rotated])
  qed
  finally have num: "\<bar>A * b - a * B\<bar> \<le> u * (3 * (a + b) * b)" .
  have Bb: "0 \<le> B * b"
    using Bpos bpos by simp
  have "A / B - a / b = (A * b - a * B) / (B * b)"
    using Bpos bpos by (simp add: field_simps)
  then have "\<bar>A / B - a / b\<bar> = \<bar>A * b - a * B\<bar> / (B * b)"
    using Bb by (simp only: abs_divide abs_of_nonneg)
  also have "\<dots> \<le> u * (3 * (a + b) * b) / (B * b)"
    by (rule divide_right_mono [OF num Bb])
  also have "\<dots> = 3 * u * (a + b) / B"
    using bpos by simp
  also have "\<dots> \<le> 3 * u * (a + b) / (b / 2)"
  proof (rule divide_left_mono [OF B])
    show "0 \<le> 3 * u * (a + b)"
      using a bpos u(1) by simp
    show "0 < B * (b / 2)"
      using Bpos bpos by simp
  qed
  also have "\<dots> = 6 * (u * (a / b + 1))"
    using bpos by (simp add: field_simps)
  finally show ?thesis .
qed

subsection \<open>The value computed by the CPU sampler\<close>

text \<open>
  The value \<^verbatim>\<open>(1.0 - (double)n / (double)m) * 100.0\<close> for two 64-bit counts, \<open>m\<close> not
  zero: it is a finite double, it differs from the exact value by the five roundings
  only, and it lies between 0 and 100 when \<open>n \<le> m\<close>.
\<close>

lemma cpu_value_accuracy:
  fixes n m :: nat
  assumes n: "n < 2 ^ 64" and m: "m < 2 ^ 64" and mpos: "0 < m"
  shows "\<exists>v. double_mul
                (double_sub (Finite 1)
                   (round_double (round_nearest (real n) / round_nearest (real m))))
                (Finite 100) = Finite v
             \<and> \<bar>v - (1 - real n / real m) * 100\<bar> \<le> (1 + real n / real m) / 2 ^ 42"
proof -
  define a b where "a = real n" and "b = real m"
  define A B where "A = round_nearest a" and "B = round_nearest b"
  define x where "x = a / b"
  define X where "X = x + 1"
  define c where "c = X / 2 ^ 53"
  have a0: "0 \<le> a" by (simp add: a_def)
  from mpos have b1: "1 \<le> b" by (simp add: b_def)
  have A0: "0 \<le> A" and A64: "A \<le> 2 ^ 64"
    unfolding A_def a_def by (rule round_double_of_nat(2,3) [OF n])+
  have B1: "1 \<le> B"
    unfolding B_def b_def by (rule round_nearest_of_nat_ge_1 [OF mpos])
  from a0 b1 have x0: "0 \<le> x" by (simp add: x_def)
  then have X1: "1 \<le> X" by (simp add: X_def)
  then have c0: "0 \<le> c" by (simp add: c_def)
  from X1 have "X / 2 ^ 53 \<le> X / 16"
    by (intro divide_left_mono) simp_all
  then have cX: "c \<le> X / 16" by (simp only: c_def)
  have eA: "\<bar>A - a\<bar> \<le> (1 / 2 ^ 53) * (a + 1)"
    using round_nearest_error [of a] a0 by (simp add: A_def)
  have eB: "\<bar>B - b\<bar> \<le> (1 / 2 ^ 53) * (b + 1)"
    using round_nearest_error [of b] b1 by (simp add: B_def)
  define z1 where "z1 = A / B"
  have "\<bar>A / B - a / b\<bar> \<le> 6 * ((1 / 2 ^ 53) * (a / b + 1))"
    by (rule quotient_error [OF a0 b1 _ _ eA eB]) simp_all
  then have D: "\<bar>z1 - x\<bar> \<le> 6 * c"
    by (simp add: z1_def x_def c_def X_def)
  from A0 B1 have z0: "0 \<le> z1" by (simp add: z1_def)
  from B1 A0 have "A / B \<le> A / 1"
    by (intro divide_left_mono) simp_all
  with A64 have z64: "z1 \<le> 2 ^ 64" by (simp add: z1_def)
  define q where "q = round_nearest z1"
  have lt: "(2::real) ^ 64 < 2 ^ 1024" by simp
  have qF: "round_double z1 = Finite q" and q0: "0 \<le> q" and q64: "q \<le> 2 ^ 64"
    unfolding q_def by (rule round_double_range [OF z0 z64 round_nearest_2_64 lt])+
  from D z0 cX X_def have "\<bar>z1\<bar> + 1 \<le> 2 * X" by argo
  from round_step [OF this] have eq: "\<bar>q - z1\<bar> \<le> 2 * c"
    by (simp only: q_def c_def)
  from eq D have qx: "\<bar>q - x\<bar> \<le> 8 * c" by argo
  define w where "w = 1 - q"
  from qx q0 cX X1 X_def have "\<bar>w\<bar> + 1 \<le> 3 * X"
    unfolding w_def by argo
  define s where "s = round_nearest w"
  from round_step [OF \<open>\<bar>w\<bar> + 1 \<le> 3 * X\<close>] have es: "\<bar>s - w\<bar> \<le> 3 * c"
    by (simp only: s_def c_def)
  from q0 q64 have wM: "\<bar>w\<bar> \<le> 1 + 2 ^ 64"
    unfolding w_def by argo
  have M1: "2 * (1 + (2::real) ^ 64) + 1 < 2 ^ 1024" by simp
  have sF: "round_double w = Finite s" and sM: "\<bar>s\<bar> \<le> 2 * (1 + 2 ^ 64) + 1"
    unfolding s_def by (rule round_double_bounded [OF wM M1])+
  from es qx have sx: "\<bar>s - (1 - x)\<bar> \<le> 11 * c"
    unfolding w_def by argo
  define y where "y = s * 100"
  have ys: "\<bar>y\<bar> = 100 * \<bar>s\<bar>" by (simp add: y_def abs_mult)
  from sx x0 cX X1 X_def ys have "\<bar>y\<bar> + 1 \<le> 201 * X" by argo
  define p where "p = round_nearest y"
  from round_step [OF \<open>\<bar>y\<bar> + 1 \<le> 201 * X\<close>] have ep: "\<bar>p - y\<bar> \<le> 201 * c"
    by (simp only: p_def c_def)
  from sM ys have yM: "\<bar>y\<bar> \<le> 100 * (2 * (1 + 2 ^ 64) + 1)" by argo
  have M2: "2 * (100 * (2 * (1 + (2::real) ^ 64) + 1)) + 1 < 2 ^ 1024" by simp
  have pF: "round_double y = Finite p"
    unfolding p_def by (rule round_double_bounded(1) [OF yM M2])
  have "y = s * 100" by (rule y_def)
  with ep sx c0 have "\<bar>p - (1 - x) * 100\<bar> \<le> 2048 * c" by argo
  also have "2048 * c = (1 + x) / 2 ^ 42"
    by (simp add: c_def X_def)
  finally have acc: "\<bar>p - (1 - a / b) * 100\<bar> \<le> (1 + a / b) / 2 ^ 42"
    by (simp only: x_def)
  have "double_mul (double_sub (Finite 1) (round_double (A / B))) (Finite 100) = Finite p"
    using qF sF pF by (simp add: z1_def w_def y_def)
  with acc show ?thesis
    unfolding A_def B_def a_def b_def by blast
qed

lemma cpu_value_bounds:
  fixes n m :: nat
  assumes nm: "n \<le> m" and mpos: "0 < m" and m: "m < 2 ^ 64"
  shows "\<exists>v. double_mul
                (double_sub (Finite 1)
                   (round_double (round_nearest (real n) / round_nearest (real m))))
                (Finite 100) = Finite v
             \<and> 0 \<le> v \<and> v \<le> 100"
proof -
  define A B where "A = round_nearest (real n)" and "B = round_nearest (real m)"
  from nm m have n: "n < 2 ^ 64" by simp
  have A0: "0 \<le> A"
    unfolding A_def by (rule round_double_of_nat(2) [OF n])
  have B1: "1 \<le> B"
    unfolding B_def by (rule round_nearest_of_nat_ge_1 [OF mpos])
  from nm have "real n \<le> real m" by simp
  from round_nearest_mono_nonneg [OF _ this] have AB: "A \<le> B"
    by (simp add: A_def B_def)
  define z where "z = A / B"
  from A0 B1 have z0: "0 \<le> z" by (simp add: z_def)
  from AB B1 have z1: "z \<le> 1" by (simp add: z_def)
  have one: "(1::real) < 2 ^ 1024" by simp
  define q where "q = round_nearest z"
  have qF: "round_double z = Finite q" and q0: "0 \<le> q" and q1: "q \<le> 1"
    unfolding q_def by (rule round_double_range [OF z0 z1 round_nearest_1 one])+
  define s where "s = round_nearest (1 - q)"
  from q0 q1 have w0: "0 \<le> 1 - q" and w1: "1 - q \<le> 1" by simp_all
  have sF: "round_double (1 - q) = Finite s" and s0: "0 \<le> s" and s1: "s \<le> 1"
    unfolding s_def by (rule round_double_range [OF w0 w1 round_nearest_1 one])+
  define p where "p = round_nearest (s * 100)"
  from s0 s1 have y0: "0 \<le> s * 100" and y1: "s * 100 \<le> 100" by simp_all
  have hundred: "(100::real) < 2 ^ 1024" by simp
  have pF: "round_double (s * 100) = Finite p" and p0: "0 \<le> p" and p1: "p \<le> 100"
    unfolding p_def by (rule round_double_range [OF y0 y1 round_nearest_100 hundred])+
  have "double_mul (double_sub (Finite 1) (round_double (A / B))) (Finite 100) = Finite p"
    using qF sF pF by (simp add: z_def)
  with p0 p1 show ?thesis
    unfolding A_def B_def by blast
qed

section \<open>Properties of the utilization samplers\<close>

subsection \<open>Auxiliary facts\<close>

lemma LowPart_fileTimeToInt: "LowPart (fileTimeToInt ft) = dwLowDateTime ft"
  unfolding LowPart_def fileTimeToInt_def
  by (rule bit_word_eqI) (auto simp: bit_simps dest: bit_imp_le_length)

lemma HighPart_fileTimeToInt: "HighPart (fileTimeToInt ft) = dwHighDateTime ft"
  unfolding HighPart_def fileTimeToInt_def
  by (rule bit_word_eqI) (auto simp: bit_simps dest: bit_imp_le_length)

lemma unat_fileTimeToInt:
  "unat (fileTimeToInt ft) = unat (dwHighDateTime ft) * 2 ^ 32 + unat (dwLowDateTime ft)"
proof -
  let ?hi = "ucast (dwHighDateTime ft) :: 64 word" and ?lo = "ucast (dwLowDateTime ft) :: 64 word"
  have "push_bit 32 ?hi AND ?lo = 0"
    by (rule bit_word_eqI) (auto simp: bit_simps dest: bit_imp_le_length)
  then have "push_bit 32 ?hi + ?lo = push_bit 32 ?hi OR ?lo"
    by (rule disjunctive_add_eq_or)
  then have sum: "fileTimeToInt ft = push_bit 32 ?hi + ?lo"
    unfolding fileTimeToInt_def by simp
  have hi: "unat (dwHighDateTime ft) < 2 ^ 32" and lo: "unat (dwLowDateTime ft) < 2 ^ 32"
    by (rule unat_less_2_32)+
  have ulo: "unat ?lo = unat (dwLowDateTime ft)"
    using lo by (simp add: unsigned_ucast_eq take_bit_nat_eq_self)
  have uhi: "unat ?hi = unat (dwHighDateTime ft)"
    using hi by (simp add: unsigned_ucast_eq take_bit_nat_eq_self)
  have two: "unat (2 ^ 32 :: 64 word) = 2 ^ 32"
    by simp
  from hi have "unat (dwHighDateTime ft) * 2 ^ 32 < 2 ^ 32 * 2 ^ 32"
    by simp
  then have bound: "unat (dwHighDateTime ft) * 2 ^ 32 < 2 ^ 64"
    by simp
  then have "unat ?hi * unat (2 ^ 32 :: 64 word) < 2 ^ LENGTH(64)"
    by (simp only: uhi two) simp
  then have "unat (?hi * 2 ^ 32) = unat ?hi * unat (2 ^ 32 :: 64 word)"
    by (simp only: unat_mult_lem)
  then have ush: "unat (push_bit 32 ?hi) = unat (dwHighDateTime ft) * 2 ^ 32"
    by (simp only: push_bit_eq_mult uhi two)
  from hi lo have "unat (dwHighDateTime ft) * 2 ^ 32 + unat (dwLowDateTime ft) < 2 ^ 64"
    by simp
  then have "unat (push_bit 32 ?hi) + unat ?lo < 2 ^ LENGTH(64)"
    by (simp only: ush ulo) simp
  then have "unat (push_bit 32 ?hi + ?lo) = unat (push_bit 32 ?hi) + unat ?lo"
    by (simp only: unat_add_lem)
  then have "unat (push_bit 32 ?hi + ?lo) = unat (dwHighDateTime ft) * 2 ^ 32 + unat (dwLowDateTime ft)"
    by (simp only: ush ulo)
  with sum show ?thesis by (simp only:)
qed

lemma getMetric_failed: "CpuMonitor_getMetric s now None = Inr (None, s)"
  by (simp add: CpuMonitor_getMetric_def)

lemma getMetric_unset:
  "lastIdleTime s = 0 \<Longrightarrow> CpuMonitor_getMetric s now (Some r) = Inr (None, snapshot r)"
  by (cases r) (simp add: CpuMonitor_getMetric_def snapshot_def)

lemma double_div_counts:
  assumes "t \<noteq> 0"
  shows "double_div (to_double d) (to_double t) =
           Inr (round_double (round_nearest (real (unat d)) / round_nearest (real (unat t))))"
  using round_nearest_count_ge_1 [OF assms] by (simp only: to_double_Finite double_div.simps) simp

lemma getMetric_baseline:
  assumes "lastIdleTime s \<noteq> 0"
  shows "CpuMonitor_getMetric s now (Some (i, k, u)) =
     (let deltaIdle = fileTimeToInt i - lastIdleTime s;
          totalSystem = (fileTimeToInt k - lastKernelTime s) + (fileTimeToInt u - lastUserTime s)
      in Inr (Some \<lparr>component = ''CPU'', metric = ''Usage'',
                     mvalue = (if totalSystem = 0 then Finite 0
                               else double_mul
                                      (double_sub (Finite 1)
                                         (round_double (round_nearest (real (unat deltaIdle))
                                                        / round_nearest (real (unat totalSystem)))))
                                      (Finite 100)),
                     unit = ''%'', timestamp = now\<rparr>, snapshot (i, k, u)))"
  using assms
  by (simp add: CpuMonitor_getMetric_def snapshot_def Let_def double_div_counts)

lemma getMetric_no_fault: "CpuMonitor_getMetric s now os \<noteq> Inl e"
proof (cases os)
  case None
  then show ?thesis by (simp add: getMetric_failed)
next
  case (Some r)
  obtain i k u where r: "r = (i, k, u)" by (cases r)
  show ?thesis
  proof (cases "lastIdleTime s = 0")
    case True
    then show ?thesis by (simp add: Some getMetric_unset)
  next
    case False
    then show ?thesis by (simp add: Some r getMetric_baseline Let_def)
  qed
qed

lemma getMetric_calls_append:
  "getMetric_calls s (cs @ ds) =
     (case getMetric_calls s cs of
        Inl e \<Rightarrow> Inl e
      | Inr (rs, s') \<Rightarrow>
          (case getMetric_calls s' ds of
             Inl e \<Rightarrow> Inl e
           | Inr (qs, s'') \<Rightarrow> Inr (rs @ qs, s'')))"
  by (induction cs arbitrary: s) (auto split: sum.splits prod.splits)

lemma getMetric_calls_failed:
  "getMetric_calls s (map (\<lambda>t. (t, None)) ts) = Inr (replicate (length ts) None, s)"
  by (induction ts) (simp_all add: getMetric_failed)

lemma lastIdleTime_snapshot: "lastIdleTime (snapshot r) = idle_ticks r"
  by (cases r) (simp add: snapshot_def idle_ticks_def)

lemma getMetric_calls_unset:
  assumes "\<forall>r \<in> set (readings cs). idle_ticks r = 0" and "lastIdleTime s = 0"
  shows "\<exists>s1. getMetric_calls s cs = Inr (replicate (length cs) None, s1) \<and> lastIdleTime s1 = 0"
  using assms
proof (induction cs arbitrary: s)
  case Nil
  then show ?case by simp
next
  case (Cons c cs)
  obtain now os where c: "c = (now, os)" by (cases c)
  show ?case
  proof (cases os)
    case None
    from Cons.prems have "\<forall>r \<in> set (readings cs). idle_ticks r = 0"
      by (simp add: readings_def c None map_filter_simps)
    from Cons.IH [OF this Cons.prems(2)] show ?thesis
      by (auto simp: c None getMetric_failed)
  next
    case (Some r)
    from Cons.prems have r0: "idle_ticks r = 0" and rest: "\<forall>r \<in> set (readings cs). idle_ticks r = 0"
      by (simp_all add: readings_def c Some map_filter_simps)
    have "lastIdleTime (snapshot r) = 0"
      by (simp add: lastIdleTime_snapshot r0)
    from Cons.IH [OF rest this] show ?thesis
      by (auto simp: c Some getMetric_unset [OF Cons.prems(2)])
  qed
qed

lemma getMetric_busy:
  assumes "lastIdleTime s \<noteq> 0"
    and "deltaIdle = fileTimeToInt i - lastIdleTime s"
    and "totalSystem = (fileTimeToInt k - lastKernelTime s) + (fileTimeToInt u - lastUserTime s)"
    and "totalSystem \<noteq> 0"
  shows "CpuMonitor_getMetric s now (Some (i, k, u)) =
           Inr (Some \<lparr>component = ''CPU'', metric = ''Usage'',
                       mvalue = double_mul
                                  (double_sub (Finite 1)
                                     (round_double (round_nearest (real (unat deltaIdle))
                                                    / round_nearest (real (unat totalSystem)))))
                                  (Finite 100),
                       unit = ''%'', timestamp = now\<rparr>, snapshot (i, k, u))"
  using assms by (simp add: getMetric_baseline Let_def)

lemma round_double_five_sixths:
  "round_double (5 / 6) = Finite (7505999378950827 / 9007199254740992)"
proof -
  have "round_nearest (5 / 6) = 7505999378950827 / 9007199254740992"
    by (subst round_nearest_eval [of "- 1"]) (simp_all add: rne_def power_int_minus)
  then show ?thesis
    by (simp add: round_double_def)
qed

lemma round_double_one_sixth:
  "round_double (1501199875790165 / 9007199254740992)
     = Finite (1501199875790165 / 9007199254740992)"
proof -
  have "round_nearest (1501199875790165 / 9007199254740992)
          = 1501199875790165 / 9007199254740992"
    by (subst round_nearest_eval [of "- 3"]) (simp_all add: rne_def power_int_minus)
  then show ?thesis
    by (simp add: round_double_def)
qed

lemma round_double_percent:
  "round_double (37529996894754125 / 2251799813685248)
     = Finite (2345624805922133 / 140737488355328)"
proof -
  have "round_nearest (37529996894754125 / 2251799813685248)
          = 2345624805922133 / 140737488355328"
    by (subst round_nearest_eval [of 4]) (simp_all add: rne_def power_int_minus)
  then show ?thesis
    by (simp add: round_double_def)
qed

lemma usage_example_value:
  "CpuMonitor_getMetric \<lparr>lastIdleTime = 100, lastKernelTime = 200, lastUserTime = 100\<rparr> 1700000000
       (Some (\<lparr>dwLowDateTime = 150, dwHighDateTime = 0\<rparr>,
              \<lparr>dwLowDateTime = 240, dwHighDateTime = 0\<rparr>,
              \<lparr>dwLowDateTime = 120, dwHighDateTime = 0\<rparr>))
     = Inr (Some \<lparr>component = ''CPU'', metric = ''Usage'',
                   mvalue = Finite (2345624805922133 / 140737488355328),
                   unit = ''%'', timestamp = 1700000000\<rparr>,
            \<lparr>lastIdleTime = 150, lastKernelTime = 240, lastUserTime = 120\<rparr>)"
proof -
  have n50: "round_nearest 50 = 50"
    using round_nearest_of_int [of 50] by simp
  have n60: "round_nearest 60 = 60"
    using round_nearest_of_int [of 60] by simp
  show ?thesis
    by (simp add: getMetric_baseline Let_def snapshot_def fileTimeToInt_def n50 n60
        round_double_five_sixths round_double_one_sixth round_double_percent)
qed

text \<open>
  Counts above \<open>2 ^ 53\<close> are rounded by the conversion: with \<open>deltaIdle = 2 ^ 53\<close> and
  \<open>totalSystem = 2 ^ 53 + 1\<close> both convert to \<open>2 ^ 53\<close>, and the value is 0.0.
\<close>

lemma usage_example_large_counts:
  "CpuMonitor_getMetric \<lparr>lastIdleTime = 1, lastKernelTime = 0, lastUserTime = 0\<rparr> 1700000000
       (Some (\<lparr>dwLowDateTime = 1, dwHighDateTime = 2097152\<rparr>,
              \<lparr>dwLowDateTime = 1, dwHighDateTime = 2097152\<rparr>,
              \<lparr>dwLowDateTime = 0, dwHighDateTime = 0\<rparr>))
     = Inr (Some \<lparr>component = ''CPU'', metric = ''Usage'', mvalue = Finite 0,
                   unit = ''%'', timestamp = 1700000000\<rparr>,
            \<lparr>lastIdleTime = 9007199254740993, lastKernelTime = 9007199254740993,
             lastUserTime = 0\<rparr>)"
proof -
  have a: "round_nearest 9007199254740992 = 9007199254740992"
    by (subst round_nearest_eval [of 53]) (simp_all add: rne_def power_int_minus)
  have b: "round_nearest 9007199254740993 = 9007199254740992"
    by (subst round_nearest_eval [of 53]) (simp_all add: rne_def power_int_minus)
  have one: "round_double 1 = Finite 1"
    using round_double_small_nat [of 1] by simp
  have zero: "round_double 0 = Finite 0"
    by (simp add: round_double_def)
  show ?thesis
    by (simp add: getMetric_baseline Let_def snapshot_def fileTimeToInt_def a b one zero)
qed

subsection \<open>The CPU sampler\<close>

text \<open>
  Claim C2. A freshly constructed CPU sampler is called any number of times with a failing
  OS call and then once with a successful reading: every one of these calls returns no
  value, and after the call that obtained the reading each of the three stored 64-bit
  counts is the raw \<^verbatim>\<open>FILETIME\<close> that was read: its low half and its high half are those
  of the reading, so its value is \<open>high * 2 ^ 32 + low\<close>.
\<close>

theorem first_reading_sets_baseline:
  "\<exists>s'. getMetric_calls CpuMonitor_ctor
            (map (\<lambda>t. (t, None)) ts @ [(now, Some (idleTime, kernelTime, userTime))])
          = Inr (replicate (length ts) None @ [None], s')
      \<and> LowPart (lastIdleTime s') = dwLowDateTime idleTime
      \<and> HighPart (lastIdleTime s') = dwHighDateTime idleTime
      \<and> unat (lastIdleTime s') = unat (dwHighDateTime idleTime) * 2 ^ 32 + unat (dwLowDateTime idleTime)
      \<and> LowPart (lastKernelTime s') = dwLowDateTime kernelTime
      \<and> HighPart (lastKernelTime s') = dwHighDateTime kernelTime
      \<and> unat (lastKernelTime s') = unat (dwHighDateTime kernelTime) * 2 ^ 32 + unat (dwLowDateTime kernelTime)
      \<and> LowPart (lastUserTime s') = dwLowDateTime userTime
      \<and> HighPart (lastUserTime s') = dwHighDateTime userTime
      \<and> unat (lastUserTime s') = unat (dwHighDateTime userTime) * 2 ^ 32 + unat (dwLowDateTime userTime)"
proof -
  have "getMetric_calls CpuMonitor_ctor
            (map (\<lambda>t. (t, None)) ts @ [(now, Some (idleTime, kernelTime, userTime))])
          = Inr (replicate (length ts) None @ [None], snapshot (idleTime, kernelTime, userTime))"
    by (simp add: getMetric_calls_append getMetric_calls_failed getMetric_unset CpuMonitor_ctor_def)
  then show ?thesis
    by (simp add: snapshot_def LowPart_fileTimeToInt HighPart_fileTimeToInt unat_fileTimeToInt)
qed

text \<open>
  Claim C3. When a baseline exists (the stored idle time is not zero) and the total
  \<^verbatim>\<open>(kernelNow - kernelPrev) + (userNow - userPrev)\<close> is positive, the call returns a
  metric whose value is \<^verbatim>\<open>(1.0 - (double)deltaIdle / (double)total) * 100.0\<close> as the
  double arithmetic computes it from the 64-bit unsigned differences: a finite double,
  within \<open>(1 + deltaIdle / total) / 2 ^ 42\<close> of the exact \<open>(1 - deltaIdle / total) * 100\<close>.
  The witness is the synthetic pair of readings idle 100 to 150, kernel 200 to 240, user
  100 to 120: the value is the double \<open>2345624805922133 / 2 ^ 47\<close>
  (16.666666666666664), within 0.01 of 16.67.
\<close>

theorem usage_formula:
  assumes "lastIdleTime s \<noteq> 0"
    and "deltaIdle = fileTimeToInt i - lastIdleTime s"
    and "totalSystem = (fileTimeToInt k - lastKernelTime s) + (fileTimeToInt u - lastUserTime s)"
    and "0 < totalSystem"
  shows "\<exists>q v. double_div (to_double deltaIdle) (to_double totalSystem) = Inr q
           \<and> double_mul (double_sub (Finite 1) q) (Finite 100) = Finite v
           \<and> CpuMonitor_getMetric s now (Some (i, k, u)) =
               Inr (Some \<lparr>component = ''CPU'', metric = ''Usage'', mvalue = Finite v,
                           unit = ''%'', timestamp = now\<rparr>, snapshot (i, k, u))
           \<and> \<bar>v - (1 - real (unat deltaIdle) / real (unat totalSystem)) * 100\<bar>
                 \<le> (1 + real (unat deltaIdle) / real (unat totalSystem)) / 2 ^ 42"
proof -
  from \<open>0 < totalSystem\<close> have nz: "totalSystem \<noteq> 0" by auto
  then have pos: "0 < unat totalSystem" by (simp add: unat_gt_0)
  from cpu_value_accuracy [OF unat_less_2_64 unat_less_2_64 pos, of deltaIdle]
  obtain v where v: "double_mul
                (double_sub (Finite 1)
                   (round_double (round_nearest (real (unat deltaIdle))
                                  / round_nearest (real (unat totalSystem)))))
                (Finite 100) = Finite v"
    and acc: "\<bar>v - (1 - real (unat deltaIdle) / real (unat totalSystem)) * 100\<bar>
                 \<le> (1 + real (unat deltaIdle) / real (unat totalSystem)) / 2 ^ 42"
    by blast
  have "CpuMonitor_getMetric s now (Some (i, k, u)) =
               Inr (Some \<lparr>component = ''CPU'', metric = ''Usage'', mvalue = Finite v,
                           unit = ''%'', timestamp = now\<rparr>, snapshot (i, k, u))"
    by (simp only: getMetric_busy [OF assms(1-3) nz] v)
  with double_div_counts [OF nz, of deltaIdle] v acc show ?thesis
    by blast
qed

theorem usage_formula_witness:
  "CpuMonitor_getMetric \<lparr>lastIdleTime = 100, lastKernelTime = 200, lastUserTime = 100\<rparr> 1700000000
       (Some (\<lparr>dwLowDateTime = 150, dwHighDateTime = 0\<rparr>,
              \<lparr>dwLowDateTime = 240, dwHighDateTime = 0\<rparr>,
              \<lparr>dwLowDateTime = 120, dwHighDateTime = 0\<rparr>))
     = Inr (Some \<lparr>component = ''CPU'', metric = ''Usage'',
                   mvalue = Finite (2345624805922133 / 140737488355328),
                   unit = ''%'', timestamp = 1700000000\<rparr>,
            \<lparr>lastIdleTime = 150, lastKernelTime = 240, lastUserTime = 120\<rparr>)
   \<and> \<bar>2345624805922133 / 140737488355328 - (1 - 50 / 60) * (100::real)\<bar> \<le> (1 + 50 / 60) / 2 ^ 42
   \<and> \<bar>2345624805922133 / 140737488355328 - (16.67::real)\<bar> < 0.01"
proof -
  let ?s = "\<lparr>lastIdleTime = 100, lastKernelTime = 200, lastUserTime = 100\<rparr>"
  let ?i = "\<lparr>dwLowDateTime = 150, dwHighDateTime = 0\<rparr>"
  let ?k = "\<lparr>dwLowDateTime = 240, dwHighDateTime = 0\<rparr>"
  let ?u = "\<lparr>dwLowDateTime = 120, dwHighDateTime = 0\<rparr>"
  have h1: "lastIdleTime ?s \<noteq> 0" by simp
  have h2: "(50 :: 64 word) = fileTimeToInt ?i - lastIdleTime ?s"
    by (simp add: fileTimeToInt_def)
  have h3: "(60 :: 64 word) = (fileTimeToInt ?k - lastKernelTime ?s) + (fileTimeToInt ?u - lastUserTime ?s)"
    by (simp add: fileTimeToInt_def)
  have h4: "(0 :: 64 word) < 60" by simp
  from usage_formula [OF h1 h2 h3 h4, of 1700000000]
  obtain v where run: "CpuMonitor_getMetric ?s 1700000000 (Some (?i, ?k, ?u)) =
               Inr (Some \<lparr>component = ''CPU'', metric = ''Usage'', mvalue = Finite v,
                           unit = ''%'', timestamp = 1700000000\<rparr>, snapshot (?i, ?k, ?u))"
    and acc: "\<bar>v - (1 - real (unat (50 :: 64 word)) / real (unat (60 :: 64 word))) * 100\<bar>
                 \<le> (1 + real (unat (50 :: 64 word)) / real (unat (60 :: 64 word))) / 2 ^ 42"
    by blast
  from run usage_example_value have v: "v = 2345624805922133 / 140737488355328"
    by simp
  from acc have "\<bar>v - (1 - 50 / 60) * 100\<bar> \<le> (1 + 50 / 60) / 2 ^ 42"
    by simp
  with v usage_example_value show ?thesis
    by simp
qed

text \<open>
  Claim C5 as stated, for every pair of successive readings whose total is zero, fails
  when the first reading of the pair has the idle count zero. A fresh sampler reads
  (idle 0, kernel 200, user 100) and then (idle 70, kernel 200, user 100): the total of
  the kernel and user differences is zero, and the second call returns no metric, since
  the stored idle time is still the sentinel.
\<close>

theorem degenerate_interval_after_zero_idle_counterexample:
  "getMetric_calls CpuMonitor_ctor
     [(1700000000, Some (\<lparr>dwLowDateTime = 0, dwHighDateTime = 0\<rparr>,
                         \<lparr>dwLowDateTime = 200, dwHighDateTime = 0\<rparr>,
                         \<lparr>dwLowDateTime = 100, dwHighDateTime = 0\<rparr>)),
      (1700000001, Some (\<lparr>dwLowDateTime = 70, dwHighDateTime = 0\<rparr>,
                         \<lparr>dwLowDateTime = 200, dwHighDateTime = 0\<rparr>,
                         \<lparr>dwLowDateTime = 100, dwHighDateTime = 0\<rparr>))]
   = Inr ([None, None], \<lparr>lastIdleTime = 70, lastKernelTime = 200, lastUserTime = 100\<rparr>)
   \<and> (fileTimeToInt \<lparr>dwLowDateTime = 200, dwHighDateTime = 0\<rparr>
        - fileTimeToInt \<lparr>dwLowDateTime = 200, dwHighDateTime = 0\<rparr>)
     + (fileTimeToInt \<lparr>dwLowDateTime = 100, dwHighDateTime = 0\<rparr>
        - fileTimeToInt \<lparr>dwLowDateTime = 100, dwHighDateTime = 0\<rparr>) = 0"
  by (simp add: CpuMonitor_getMetric_def CpuMonitor_ctor_def fileTimeToInt_def)

text \<open>
  Claim C5, amended. When the stored idle time is not zero (the test by which the code
  takes a baseline to exist) and the total of the kernel and user differences is zero,
  the call returns a metric whose value is 0.0; and no call of the sampler, in any state
  and on any input, ends in a division by zero.
\<close>

theorem degenerate_interval_is_zero:
  assumes "lastIdleTime s \<noteq> 0"
    and "(fileTimeToInt k - lastKernelTime s) + (fileTimeToInt u - lastUserTime s) = 0"
  shows "CpuMonitor_getMetric s now (Some (i, k, u)) =
           Inr (Some \<lparr>component = ''CPU'', metric = ''Usage'', mvalue = Finite 0,
                       unit = ''%'', timestamp = now\<rparr>, snapshot (i, k, u))
         \<and> (\<forall>s' now' os'. CpuMonitor_getMetric s' now' os' \<noteq> Inl DivisionByZero)"
  using assms by (simp add: getMetric_baseline Let_def getMetric_no_fault)

theorem degenerate_interval_is_zero_witness:
  "CpuMonitor_getMetric \<lparr>lastIdleTime = 100, lastKernelTime = 200, lastUserTime = 100\<rparr> 1700000000
       (Some (\<lparr>dwLowDateTime = 130, dwHighDateTime = 0\<rparr>,
              \<lparr>dwLowDateTime = 200, dwHighDateTime = 0\<rparr>,
              \<lparr>dwLowDateTime = 100, dwHighDateTime = 0\<rparr>))
     = Inr (Some \<lparr>component = ''CPU'', metric = ''Usage'', mvalue = Finite 0,
                   unit = ''%'', timestamp = 1700000000\<rparr>,
            \<lparr>lastIdleTime = 130, lastKernelTime = 200, lastUserTime = 100\<rparr>)"
proof -
  let ?s = "\<lparr>lastIdleTime = 100, lastKernelTime = 200, lastUserTime = 100\<rparr>"
  let ?k = "\<lparr>dwLowDateTime = 200, dwHighDateTime = 0\<rparr>"
  let ?u = "\<lparr>dwLowDateTime = 100, dwHighDateTime = 0\<rparr>"
  have h1: "lastIdleTime ?s \<noteq> 0" by simp
  have h2: "(fileTimeToInt ?k - lastKernelTime ?s) + (fileTimeToInt ?u - lastUserTime ?s) = 0"
    by (simp add: fileTimeToInt_def)
  show ?thesis
    using degenerate_interval_is_zero [OF h1 h2, of 1700000000 "\<lparr>dwLowDateTime = 130, dwHighDateTime = 0\<rparr>"]
    by (simp add: snapshot_def fileTimeToInt_def)
qed

text \<open>
  Claim C6. When a baseline exists, the total is positive and
  \<open>0 \<le> deltaIdle \<le> total\<close>, the call returns a metric whose value is the unclamped
  \<^verbatim>\<open>(1.0 - (double)deltaIdle / (double)total) * 100.0\<close>, a finite double between 0 and
  100.
\<close>

theorem usage_within_bounds:
  assumes "lastIdleTime s \<noteq> 0"
    and "deltaIdle = fileTimeToInt i - lastIdleTime s"
    and "totalSystem = (fileTimeToInt k - lastKernelTime s) + (fileTimeToInt u - lastUserTime s)"
    and "0 < totalSystem" and "0 \<le> deltaIdle" and "deltaIdle \<le> totalSystem"
  shows "\<exists>m q v. CpuMonitor_getMetric s now (Some (i, k, u)) = Inr (Some m, snapshot (i, k, u))
           \<and> double_div (to_double deltaIdle) (to_double totalSystem) = Inr q
           \<and> mvalue m = double_mul (double_sub (Finite 1) q) (Finite 100)
           \<and> mvalue m = Finite v \<and> 0 \<le> v \<and> v \<le> 100"
proof -
  from \<open>0 < totalSystem\<close> have nz: "totalSystem \<noteq> 0" by auto
  then have pos: "0 < unat totalSystem" by (simp add: unat_gt_0)
  from \<open>deltaIdle \<le> totalSystem\<close> have le: "unat deltaIdle \<le> unat totalSystem"
    by (simp only: word_le_nat_alt)
  from cpu_value_bounds [OF le pos unat_less_2_64]
  obtain v where v: "double_mul
                (double_sub (Finite 1)
                   (round_double (round_nearest (real (unat deltaIdle))
                                  / round_nearest (real (unat totalSystem)))))
                (Finite 100) = Finite v"
    and b: "0 \<le> v" "v \<le> 100"
    by blast
  have "CpuMonitor_getMetric s now (Some (i, k, u)) =
               Inr (Some \<lparr>component = ''CPU'', metric = ''Usage'', mvalue = Finite v,
                           unit = ''%'', timestamp = now\<rparr>, snapshot (i, k, u))"
    by (simp only: getMetric_busy [OF assms(1-3) nz] v)
  with double_div_counts [OF nz, of deltaIdle] v b show ?thesis
    by (intro exI [of _ "\<lparr>component = ''CPU'', metric = ''Usage'', mvalue = Finite v,
                           unit = ''%'', timestamp = now\<rparr>"] exI [of _ v]
        exI [of _ "round_double (round_nearest (real (unat deltaIdle))
                                  / round_nearest (real (unat totalSystem)))"]) simp
qed

theorem usage_within_bounds_witness:
  "\<exists>m v. CpuMonitor_getMetric \<lparr>lastIdleTime = 100, lastKernelTime = 200, lastUserTime = 100\<rparr> 1700000000
       (Some (\<lparr>dwLowDateTime = 150, dwHighDateTime = 0\<rparr>,
              \<lparr>dwLowDateTime = 240, dwHighDateTime = 0\<rparr>,
              \<lparr>dwLowDateTime = 120, dwHighDateTime = 0\<rparr>))
        = Inr (Some m, \<lparr>lastIdleTime = 150, lastKernelTime = 240, lastUserTime = 120\<rparr>)
      \<and> mvalue m = Finite v \<and> 0 \<le> v \<and> v \<le> 100"
proof -
  let ?s = "\<lparr>lastIdleTime = 100, lastKernelTime = 200, lastUserTime = 100\<rparr>"
  let ?i = "\<lparr>dwLowDateTime = 150, dwHighDateTime = 0\<rparr>"
  let ?k = "\<lparr>dwLowDateTime = 240, dwHighDateTime = 0\<rparr>"
  let ?u = "\<lparr>dwLowDateTime = 120, dwHighDateTime = 0\<rparr>"
  have h1: "lastIdleTime ?s \<noteq> 0" by simp
  have h2: "(50 :: 64 word) = fileTimeToInt ?i - lastIdleTime ?s"
    by (simp add: fileTimeToInt_def)
  have h3: "(60 :: 64 word) = (fileTimeToInt ?k - lastKernelTime ?s) + (fileTimeToInt ?u - lastUserTime ?s)"
    by (simp add: fileTimeToInt_def)
  have h4: "(0 :: 64 word) < 60" by simp
  have h5: "(0 :: 64 word) \<le> 50" by simp
  have h6: "(50 :: 64 word) \<le> 60" by simp
  have snap: "snapshot (?i, ?k, ?u) = \<lparr>lastIdleTime = 150, lastKernelTime = 240, lastUserTime = 120\<rparr>"
    by (simp add: snapshot_def fileTimeToInt_def)
  from usage_within_bounds [OF h1 h2 h3 h4 h5 h6, of 1700000000] show ?thesis
    unfolding snap by blast
qed

text \<open>
  Claim C7. When \<^verbatim>\<open>GetSystemTimes\<close> fails, the call returns no metric and the sampler
  object after the call is the object before it.
\<close>

theorem failed_reading_keeps_state:
  "CpuMonitor_getMetric s now None = Inr (None, s)"
  by (simp add: CpuMonitor_getMetric_def)

text \<open>
  Claim C10. Idle counts are cumulative: along a run they never decrease. If, in a run
  of a fresh sampler, a successful reading \<open>r\<close> has the idle count zero, then every call
  up to and including the one that obtained \<open>r\<close> returns no metric, that call stores
  \<open>r\<close> as the baseline, the stored idle time is zero again, and every later successful
  call made while the stored idle time is zero stores its reading and returns no metric.
\<close>

theorem zero_idle_reading_collides_with_sentinel:
  assumes "sorted (map idle_ticks (readings cs) @ [idle_ticks r])"
    and "idle_ticks r = 0"
  shows "getMetric_calls CpuMonitor_ctor (cs @ [(now, Some r)])
           = Inr (replicate (length cs) None @ [None], snapshot r)
         \<and> lastIdleTime (snapshot r) = 0
         \<and> (\<forall>s2 now2 r2. lastIdleTime s2 = 0 \<longrightarrow>
               CpuMonitor_getMetric s2 now2 (Some r2) = Inr (None, snapshot r2))"
proof -
  from assms have "\<forall>x \<in> set (readings cs). idle_ticks x \<le> 0"
    by (auto simp: sorted_append)
  then have zero: "\<forall>x \<in> set (readings cs). idle_ticks x = 0"
    by simp
  have "lastIdleTime CpuMonitor_ctor = 0"
    by (simp add: CpuMonitor_ctor_def)
  from getMetric_calls_unset [OF zero this]
  obtain s1 where run: "getMetric_calls CpuMonitor_ctor cs = Inr (replicate (length cs) None, s1)"
    and s1: "lastIdleTime s1 = 0"
    by blast
  have "getMetric_calls CpuMonitor_ctor (cs @ [(now, Some r)])
           = Inr (replicate (length cs) None @ [None], snapshot r)"
    by (simp add: getMetric_calls_append run getMetric_unset [OF s1])
  moreover have "lastIdleTime (snapshot r) = 0"
    by (simp add: lastIdleTime_snapshot assms(2))
  ultimately show ?thesis
    by (simp add: getMetric_unset)
qed

theorem zero_idle_reading_collides_with_sentinel_witness:
  "getMetric_calls CpuMonitor_ctor
     [(1700000000, None),
      (1700000001, Some (\<lparr>dwLowDateTime = 0, dwHighDateTime = 0\<rparr>,
                         \<lparr>dwLowDateTime = 200, dwHighDateTime = 0\<rparr>,
                         \<lparr>dwLowDateTime = 100, dwHighDateTime = 0\<rparr>)),
      (1700000002, Some (\<lparr>dwLowDateTime = 0, dwHighDateTime = 0\<rparr>,
                         \<lparr>dwLowDateTime = 240, dwHighDateTime = 0\<rparr>,
                         \<lparr>dwLowDateTime = 120, dwHighDateTime = 0\<rparr>))]
   = Inr ([None, None, None], \<lparr>lastIdleTime = 0, lastKernelTime = 240, lastUserTime = 120\<rparr>)"
proof -
  let ?r1 = "(\<lparr>dwLowDateTime = 0, dwHighDateTime = 0\<rparr>,
              \<lparr>dwLowDateTime = 200, dwHighDateTime = 0\<rparr>,
              \<lparr>dwLowDateTime = 100, dwHighDateTime = 0\<rparr>)"
  let ?r2 = "(\<lparr>dwLowDateTime = 0, dwHighDateTime = 0\<rparr>,
              \<lparr>dwLowDateTime = 240, dwHighDateTime = 0\<rparr>,
              \<lparr>dwLowDateTime = 120, dwHighDateTime = 0\<rparr>)"
  let ?cs = "[(1700000000 :: 64 word, None), (1700000001, Some ?r1)]"
  have h1: "sorted (map idle_ticks (readings ?cs) @ [idle_ticks ?r2])"
    by (simp add: readings_def idle_ticks_def fileTimeToInt_def)
  have h2: "idle_ticks ?r2 = 0"
    by (simp add: idle_ticks_def fileTimeToInt_def)
  show ?thesis
    using zero_idle_reading_collides_with_sentinel [OF h1 h2, of 1700000002]
    by (simp add: snapshot_def fileTimeToInt_def)
qed

subsection \<open>The RAM sampler\<close>

text \<open>
  Claim C8. When \<^verbatim>\<open>GlobalMemoryStatusEx\<close> succeeds, the RAM sampler returns a metric
  whose value is exactly \<^verbatim>\<open>dwMemoryLoad\<close> as a double (the conversion of a 32-bit count
  does not round); when the call fails, it returns no metric.
\<close>

theorem ram_value_is_raw_load:
  "RamMonitor_getMetric now (Some memInfo) =
      Some \<lparr>component = ''RAM'', metric = ''Usage'',
            mvalue = Finite (real (unat (dwMemoryLoad memInfo))),
            unit = ''%'', timestamp = now\<rparr>
   \<and> RamMonitor_getMetric now None = None"
  by (simp add: RamMonitor_getMetric_def dword_to_double_exact)

section \<open>Properties of the metric store\<close>

subsection \<open>Auxiliary facts\<close>

text \<open>
  The path of \<^verbatim>\<open>connect\<close> on which \<^verbatim>\<open>sqlite3_open\<close> fails: the handle, if one was
  written, is closed and the member is null.
\<close>

lemma connect_open_failure_releases_handle:
  assumes "rc \<noteq> SQLITE_OK"
  shows "\<exists>w'. connect (rc, h) exec_rc dbPath s w = (False, \<lparr>db = None\<rparr>, w')
           \<and> (\<forall>c. h = Some c \<longrightarrow> c \<notin> open_handles w')"
  using assms by (cases h) (auto simp: connect_def sqlite3_open_def sqlite3_close_def)

text \<open>
  The path on which \<^verbatim>\<open>initTables\<close> fails, for every handle and every failing result
  code: the member keeps the handle and the connection stays open.
\<close>

lemma connect_schema_failure_keeps_handle:
  assumes "exec_rc \<noteq> SQLITE_OK"
  shows "\<exists>w'. connect (SQLITE_OK, Some c) exec_rc dbPath s w = (False, \<lparr>db = Some c\<rparr>, w')
           \<and> c \<in> open_handles w'"
  using assms by (simp add: connect_def sqlite3_open_def initTables_def sqlite3_exec_def)

text \<open>With a null handle \<^verbatim>\<open>insertMetric\<close> returns false and touches nothing.\<close>

lemma insertMetric_null_handle:
  "db s = None \<Longrightarrow> insertMetric env m s w = (False, w)"
  by (simp add: insertMetric_def)

lemma DatabaseManager_dtor_null_handle:
  "db (fst (DatabaseManager_dtor s w)) = None"
  by (simp add: DatabaseManager_dtor_def split: option.splits)

text \<open>The statement prepared by \<^verbatim>\<open>insertMetric\<close> is finalized on every path.\<close>

lemma insertMetric_finalizes:
  "live_stmts (snd (insertMetric env m s w)) = live_stmts w"
  by (auto simp: insertMetric_def sqlite3_prepare_v2_def sqlite3_step_def
      sqlite3_finalize_def Let_def split: option.splits prod.splits)

text \<open>
  When \<^verbatim>\<open>insertMetric\<close> returns true. A metric whose value is a NaN is bound as NULL
  and refused by the \<^verbatim>\<open>NOT NULL\<close> column.
\<close>

lemma insertMetric_success_iff:
  "fst (insertMetric env m s w) \<longleftrightarrow>
     db s \<noteq> None \<and> prepare_rc env = SQLITE_OK
     \<and> (\<forall>i \<in> {1, 2, 3, 4, 5}. bind_rc env i = SQLITE_OK) \<and> mvalue m \<noteq> NaN
     \<and> step_rc env = SQLITE_DONE"
  by (auto simp: insertMetric_def sqlite3_prepare_v2_def sqlite3_bind_text_def
      sqlite3_bind_double_def sqlite3_bind_int64_def sqlite3_step_def sqlite3_finalize_def Let_def numeral_eq_Suc SQLITE_DONE_def SQLITE_CONSTRAINT_def
      split: option.splits prod.splits)

text \<open>
  Two inputs on which the row is not the metric as the caller holds it: a text with an
  embedded character 0 is stored up to that character, and a NaN value makes the
  insertion fail with the table unchanged.
\<close>

lemma insertMetric_text_cut_at_NUL:
  "insertMetric \<lparr>prepare_rc = 0, bind_rc = (\<lambda>i. 0), step_rc = 101\<rparr>
      \<lparr>component = [CHR ''C'', CHR ''P'', CHR 0x00, CHR ''U''], metric = ''Usage'',
       mvalue = Finite 42.5, unit = ''%'', timestamp = 1700000000\<rparr>
      \<lparr>db = Some 7\<rparr> \<lparr>open_handles = {7}, live_stmts = 0, metrics_rows = []\<rparr>
   = (True, \<lparr>open_handles = {7}, live_stmts = 0,
             metrics_rows = [[SqlText ''CP'', SqlText ''Usage'', SqlReal (Finite 42.5),
                              SqlText ''%'', SqlInt 1700000000]]\<rparr>)"
  by (simp add: insertMetric_def sqlite3_prepare_v2_def sqlite3_bind_text_def
      sqlite3_bind_double_def sqlite3_bind_int64_def c_str_def sqlite3_step_def
      sqlite3_finalize_def Let_def numeral_eq_Suc SQLITE_OK_def SQLITE_DONE_def)

lemma insertMetric_NaN_refused:
  "insertMetric \<lparr>prepare_rc = 0, bind_rc = (\<lambda>i. 0), step_rc = 101\<rparr>
      \<lparr>component = ''CPU'', metric = ''Usage'', mvalue = NaN, unit = ''%'',
       timestamp = 1700000000\<rparr>
      \<lparr>db = Some 7\<rparr> \<lparr>open_handles = {7}, live_stmts = 0, metrics_rows = []\<rparr>
   = (False, \<lparr>open_handles = {7}, live_stmts = 0, metrics_rows = []\<rparr>)"
  by (simp add: insertMetric_def sqlite3_prepare_v2_def sqlite3_bind_text_def
      sqlite3_bind_double_def sqlite3_bind_int64_def c_str_def sqlite3_step_def
      sqlite3_finalize_def Let_def numeral_eq_Suc SQLITE_OK_def SQLITE_DONE_def
      SQLITE_CONSTRAINT_def)

subsection \<open>connect\<close>

text \<open>
  Claim C1 says that after every failed \<^verbatim>\<open>connect\<close> the handle is closed and null. The
  code at the input where \<^verbatim>\<open>sqlite3_open\<close> delivers \<^verbatim>\<open>SQLITE_OK\<close> with the handle 7 and
  \<^verbatim>\<open>sqlite3_exec\<close> in \<^verbatim>\<open>initTables\<close> delivers the error code 5: \<^verbatim>\<open>connect\<close> returns
  false, the member still holds the handle 7 and the connection 7 is still open.
\<close>

theorem connect_schema_failure_leaves_connection_open:
  "connect (SQLITE_OK, Some 7) 5 ''data/syspulse.db'' DatabaseManager_ctor
       \<lparr>open_handles = {}, live_stmts = 0, metrics_rows = []\<rparr>
     = (False, \<lparr>db = Some 7\<rparr>, \<lparr>open_handles = {7}, live_stmts = 0, metrics_rows = []\<rparr>)"
  by (simp add: connect_def sqlite3_open_def initTables_def sqlite3_exec_def SQLITE_OK_def
      DatabaseManager_ctor_def)

subsection \<open>insertMetric\<close>

text \<open>
  Claim C4. For every call of \<^verbatim>\<open>insertMetric\<close>: when it returns true, the table is the
  table before the call with exactly one row appended, the row of the metric; when it
  returns false, the table is the table before the call.
\<close>

theorem insertMetric_appends_one_row_or_none:
  "metrics_rows (snd (insertMetric env m s w)) =
     (if fst (insertMetric env m s w) then metrics_rows w @ [metric_row m] else metrics_rows w)"
  by (auto simp: insertMetric_def sqlite3_prepare_v2_def sqlite3_bind_text_def
      sqlite3_bind_double_def sqlite3_bind_int64_def sqlite3_step_def sqlite3_finalize_def metric_row_def Let_def numeral_eq_Suc SQLITE_DONE_def
      SQLITE_CONSTRAINT_def split: option.splits prod.splits)

theorem insertMetric_appends_one_row_or_none_witness:
  "fst (insertMetric \<lparr>prepare_rc = 0, bind_rc = (\<lambda>i. 0), step_rc = 101\<rparr>
          \<lparr>component = ''CPU'', metric = ''Usage'', mvalue = Finite 42.5, unit = ''%'',
           timestamp = 1700000000\<rparr>
          \<lparr>db = Some 7\<rparr> \<lparr>open_handles = {7}, live_stmts = 0, metrics_rows = []\<rparr>)
   \<and> metrics_rows (snd (insertMetric \<lparr>prepare_rc = 0, bind_rc = (\<lambda>i. 0), step_rc = 101\<rparr>
          \<lparr>component = ''CPU'', metric = ''Usage'', mvalue = Finite 42.5, unit = ''%'',
           timestamp = 1700000000\<rparr>
          \<lparr>db = Some 7\<rparr> \<lparr>open_handles = {7}, live_stmts = 0, metrics_rows = []\<rparr>))
      = [[SqlText ''CPU'', SqlText ''Usage'', SqlReal (Finite 42.5), SqlText ''%'', SqlInt 1700000000]]
   \<and> \<not> fst (insertMetric \<lparr>prepare_rc = 0, bind_rc = (\<lambda>i. 0), step_rc = 13\<rparr>
          \<lparr>component = ''CPU'', metric = ''Usage'', mvalue = Finite 42.5, unit = ''%'',
           timestamp = 1700000000\<rparr>
          \<lparr>db = Some 7\<rparr> \<lparr>open_handles = {7}, live_stmts = 0, metrics_rows = []\<rparr>)
   \<and> metrics_rows (snd (insertMetric \<lparr>prepare_rc = 0, bind_rc = (\<lambda>i. 0), step_rc = 13\<rparr>
          \<lparr>component = ''CPU'', metric = ''Usage'', mvalue = Finite 42.5, unit = ''%'',
           timestamp = 1700000000\<rparr>
          \<lparr>db = Some 7\<rparr> \<lparr>open_handles = {7}, live_stmts = 0, metrics_rows = []\<rparr>))
      = []"
proof -
  let ?m = "\<lparr>component = ''CPU'', metric = ''Usage'', mvalue = Finite 42.5, unit = ''%'',
             timestamp = 1700000000\<rparr>"
  let ?s = "\<lparr>db = Some 7\<rparr>"
  let ?w = "\<lparr>open_handles = {7}, live_stmts = 0, metrics_rows = []\<rparr>"
  let ?ok = "\<lparr>prepare_rc = 0, bind_rc = (\<lambda>i. 0), step_rc = 101\<rparr>"
  let ?full = "\<lparr>prepare_rc = 0, bind_rc = (\<lambda>i. 0), step_rc = 13\<rparr>"
  have t: "fst (insertMetric ?ok ?m ?s ?w)"
    by (simp add: insertMetric_success_iff SQLITE_OK_def SQLITE_DONE_def)
  have f: "\<not> fst (insertMetric ?full ?m ?s ?w)"
    by (simp add: insertMetric_success_iff SQLITE_OK_def SQLITE_DONE_def)
  show ?thesis
    using insertMetric_appends_one_row_or_none [of ?ok ?m ?s ?w]
      insertMetric_appends_one_row_or_none [of ?full ?m ?s ?w] t f
    by (simp add: metric_row_def c_str_def)
qed

text \<open>
  Claim C9 says that \<^verbatim>\<open>insertMetric\<close> on a store that is not open returns false and
  appends no row. The code on a store whose \<^verbatim>\<open>connect\<close> has just failed in
  \<^verbatim>\<open>initTables\<close> (the table exists from an earlier run and holds one row; \<^verbatim>\<open>sqlite3_exec\<close>
  delivered the error code 5), when the library then accepts the INSERT: \<^verbatim>\<open>insertMetric\<close>
  returns true and the table has a second row.
\<close>

theorem insertMetric_after_failed_connect_appends_row:
  "connect (SQLITE_OK, Some 7) 5 ''data/syspulse.db'' DatabaseManager_ctor
       \<lparr>open_handles = {}, live_stmts = 0,
        metrics_rows = [[SqlText ''RAM'', SqlText ''Usage'', SqlReal (Finite 61), SqlText ''%'',
                         SqlInt 1699999999]]\<rparr>
     = (False, \<lparr>db = Some 7\<rparr>,
        \<lparr>open_handles = {7}, live_stmts = 0,
         metrics_rows = [[SqlText ''RAM'', SqlText ''Usage'', SqlReal (Finite 61), SqlText ''%'',
                          SqlInt 1699999999]]\<rparr>)
   \<and> insertMetric \<lparr>prepare_rc = SQLITE_OK, bind_rc = (\<lambda>i. SQLITE_OK), step_rc = SQLITE_DONE\<rparr>
        \<lparr>component = ''CPU'', metric = ''Usage'', mvalue = Finite 42.5, unit = ''%'',
         timestamp = 1700000000\<rparr>
        \<lparr>db = Some 7\<rparr>
        \<lparr>open_handles = {7}, live_stmts = 0,
         metrics_rows = [[SqlText ''RAM'', SqlText ''Usage'', SqlReal (Finite 61), SqlText ''%'',
                          SqlInt 1699999999]]\<rparr>
     = (True,
        \<lparr>open_handles = {7}, live_stmts = 0,
         metrics_rows = [[SqlText ''RAM'', SqlText ''Usage'', SqlReal (Finite 61), SqlText ''%'',
                          SqlInt 1699999999],
                         [SqlText ''CPU'', SqlText ''Usage'', SqlReal (Finite 42.5), SqlText ''%'',
                          SqlInt 1700000000]]\<rparr>)"
  by (simp add: connect_def sqlite3_open_def initTables_def sqlite3_exec_def
      DatabaseManager_ctor_def insertMetric_def sqlite3_prepare_v2_def sqlite3_bind_text_def
      sqlite3_bind_double_def sqlite3_bind_int64_def c_str_def sqlite3_step_def
      sqlite3_finalize_def Let_def numeral_eq_Suc SQLITE_OK_def SQLITE_DONE_def)

end
